theory Spec2Isabelle
  imports Complex_Main "HOL-Library.List_Lexorder" "HOL-Library.Char_ord"
begin

section \<open>Values, errors and the rows of \<open>csv.DictReader\<close>\<close>

text \<open>
  The exceptions the pipeline can meet. None of them is raised by a \<open>raise\<close> statement
  of the source: each comes out of a library call or an operator (a dictionary lookup,
  \<open>len\<close> of \<open>None\<close>, \<open>open\<close>, the true division, the csv tokenizer, the Twarc
  client).
\<close>

datatype pyerr =
    KeyError string
  | TypeError
  | CsvError
  | FileNotFoundError string
  | PermissionError string
  | ZeroDivisionError
  | OverflowError
  | ConnectionError

text \<open>
  A value of a row dictionary: a string read from the file, or \<open>None\<close>, the
  \<open>restval\<close> that \<open>csv.DictReader\<close> stores for the columns that a short record
  does not reach.
\<close>

datatype cell = Str string | NoneVal

type_synonym row = "string \<rightharpoonup> cell"

text \<open>\<open>dict(zip(fieldnames, row))\<close>: a later duplicate of a key overwrites the earlier one.\<close>

definition dict_zip :: "string list \<Rightarrow> string list \<Rightarrow> row" where
  "dict_zip ks vs = fold (\<lambda>(k, v) d. d(k \<mapsto> Str v)) (zip ks vs) Map.empty"

text \<open>
  One step of \<open>DictReader.__next__\<close> on a tokenized record. The surplus fields of a
  long record are stored under the key \<open>None\<close> (\<open>restkey\<close>), which is no string and is
  never looked up by this program, so the model leaves that entry out.
\<close>

definition DictReader_row :: "string list \<Rightarrow> string list \<Rightarrow> row" where
  "DictReader_row fieldnames r =
     (let d = dict_zip fieldnames r; lf = length fieldnames; lr = length r
      in if lf < lr then d
         else if lf > lr then fold (\<lambda>key d. d(key \<mapsto> NoneVal)) (drop lr fieldnames) d
         else d)"

text \<open>
  \<open>csv.DictReader(csvfile)\<close> over the records the tokenizer yields: the first record
  is the header, empty records after it are skipped.
\<close>

definition DictReader :: "string list list \<Rightarrow> row list" where
  "DictReader recs =
     (case recs of
        [] \<Rightarrow> []
      | fieldnames # rest \<Rightarrow> map (DictReader_row fieldnames) (filter (\<lambda>r. r \<noteq> []) rest))"

text \<open>
  \<open>row[key]\<close> as the program uses it, always under \<open>len\<close> first: a missing column
  raises \<open>KeyError\<close>, and \<open>len(None)\<close> raises \<open>TypeError\<close>.
\<close>

definition field :: "row \<Rightarrow> string \<Rightarrow> pyerr + string" where
  "field r key =
     (case r key of
        None \<Rightarrow> Inl (KeyError key)
      | Some NoneVal \<Rightarrow> Inl TypeError
      | Some (Str s) \<Rightarrow> Inr s)"

section \<open>The Extractor: scanning the rows\<close>

record idsets =
  retweets :: "string set"
  replies :: "string set"
  quotes :: "string set"

definition no_ids :: idsets where
  "no_ids = \<lparr>retweets = {}, replies = {}, quotes = {}\<rparr>"

text \<open>
  The body of the loop \<open>for row in reader\<close>, one definition for each of its three
  \<open>if\<close> statements. The operator \<open>&\<close> does not short-circuit, so both \<open>len\<close> calls
  of a test are evaluated, left to right, before the test is decided.
\<close>

definition external_retweets :: "row \<Rightarrow> string set \<Rightarrow> pyerr + string set" where
  "external_retweets r S =
     (case field r ''retweet_userid'' of
        Inl e \<Rightarrow> Inl e
      | Inr userid \<Rightarrow>
          (case field r ''retweet_tweetid'' of
             Inl e \<Rightarrow> Inl e
           | Inr tweetid \<Rightarrow>
               Inr (if length userid = 0 \<and> length tweetid > 0 then insert tweetid S else S)))"

definition external_replies :: "row \<Rightarrow> string set \<Rightarrow> pyerr + string set" where
  "external_replies r S =
     (case field r ''in_reply_to_userid'' of
        Inl e \<Rightarrow> Inl e
      | Inr userid \<Rightarrow>
          (case field r ''in_reply_to_tweetid'' of
             Inl e \<Rightarrow> Inl e
           | Inr tweetid \<Rightarrow>
               Inr (if length userid \<ge> 0 \<and> length tweetid > 0 then insert tweetid S else S)))"

definition external_quotes :: "row \<Rightarrow> string set \<Rightarrow> pyerr + string set" where
  "external_quotes r S =
     (case field r ''quoted_tweet_tweetid'' of
        Inl e \<Rightarrow> Inl e
      | Inr tweetid \<Rightarrow> Inr (if length tweetid > 0 then insert tweetid S else S))"

definition scan_row :: "row \<Rightarrow> idsets \<Rightarrow> pyerr + idsets" where
  "scan_row r s =
     (case external_retweets r (retweets s) of
        Inl e \<Rightarrow> Inl e
      | Inr rt \<Rightarrow>
          (case external_replies r (replies s) of
             Inl e \<Rightarrow> Inl e
           | Inr rp \<Rightarrow>
               (case external_quotes r (quotes s) of
                  Inl e \<Rightarrow> Inl e
                | Inr qt \<Rightarrow> Inr \<lparr>retweets = rt, replies = rp, quotes = qt\<rparr>)))"

fun scan_rows :: "row list \<Rightarrow> idsets \<Rightarrow> pyerr + idsets" where
  "scan_rows [] s = Inr s"
| "scan_rows (r # rs) s =
     (case scan_row r s of Inl e \<Rightarrow> Inl e | Inr s' \<Rightarrow> scan_rows rs s')"


section \<open>Floating point: the percentage of the report\<close>

text \<open>
  Python's \<open>float\<close> is IEEE 754 binary64. A finite float is modelled by the rational
  number it denotes, and every operation rounds its exact result to the nearest
  representable number, ties to the even significand. The sign of zero is not modelled:
  no operand here is negative.
\<close>

datatype pyfloat = Float rat | Infinity

function bit_length :: "int \<Rightarrow> int" where
  "bit_length n = (if n \<le> 0 then 0 else 1 + bit_length (n div 2))"
  by auto
termination
  by (relation "measure nat") auto

declare bit_length.simps [simp del]

definition pow2 :: "int \<Rightarrow> rat" where
  "pow2 e = (if e \<ge> 0 then 2 ^ nat e else 1 / 2 ^ nat (- e))"

definition round_half_even :: "rat \<Rightarrow> int" where
  "round_half_even q =
     (let f = \<lfloor>q\<rfloor>; d = q - of_int f
      in if d < 1 / 2 then f else if d > 1 / 2 then f + 1 else if even f then f else f + 1)"

text \<open>The integer \<open>k\<close> with \<open>2^k \<le> q < 2^(k+1)\<close>, for a positive \<open>q\<close>.\<close>

definition ilog2 :: "rat \<Rightarrow> int" where
  "ilog2 q =
     (let (a, b) = quotient_of q;
          k = bit_length a - bit_length b
      in if pow2 k \<le> q then k else k - 1)"

text \<open>
  Rounding to binary64: 53 significant bits, and a spacing of \<open>2^-1074\<close> in the
  subnormal range. The exponent is not bounded above here; the callers test the result
  against \<open>2^1024\<close>.
\<close>

definition fl :: "rat \<Rightarrow> rat" where
  "fl q =
     (if q = 0 then 0
      else let e = max (ilog2 \<bar>q\<bar> - 52) (- 1074)
           in of_int (round_half_even (q / pow2 e)) * pow2 e)"

text \<open>
  \<open>a / b\<close> on two integers: the correctly rounded quotient, \<open>ZeroDivisionError\<close> for
  a zero divisor, \<open>OverflowError\<close> when the quotient is too large for a float.
\<close>

definition true_div :: "nat \<Rightarrow> nat \<Rightarrow> pyerr + pyfloat" where
  "true_div a b =
     (if b = 0 then Inl ZeroDivisionError
      else let q = fl (of_nat a / of_nat b)
           in if q \<ge> pow2 1024 then Inl OverflowError else Inr (Float q))"

text \<open>\<open>x * 100\<close>: the integer becomes the float \<open>100.0\<close>; an overflow gives \<open>inf\<close>.\<close>

definition float_mul :: "pyfloat \<Rightarrow> rat \<Rightarrow> pyfloat" where
  "float_mul x y =
     (case x of
        Infinity \<Rightarrow> Infinity
      | Float a \<Rightarrow> (let r = fl (a * y) in if \<bar>r\<bar> \<ge> pow2 1024 then Infinity else Float r))"

text \<open>
  \<open>round(x, ndigits=2)\<close>: the float is written as the correctly rounded decimal with
  two digits after the point (ties to even, on the exact value of the float), and that
  decimal is read back as the nearest float. An infinity rounds to itself.
\<close>

definition round_ndigits2 :: "pyfloat \<Rightarrow> pyfloat" where
  "round_ndigits2 x =
     (case x of
        Infinity \<Rightarrow> Infinity
      | Float a \<Rightarrow> Float (fl (of_int (round_half_even (a * 100)) / 100)))"

text \<open>\<open>round(collected/num_lines*100, ndigits=2)\<close>\<close>

definition recovered_percent :: "nat \<Rightarrow> nat \<Rightarrow> pyerr + pyfloat" where
  "recovered_percent collected num_lines =
     (case true_div collected num_lines of
        Inl e \<Rightarrow> Inl e
      | Inr q \<Rightarrow> Inr (round_ndigits2 (float_mul q 100)))"

section \<open>Files, directories and the console\<close>

text \<open>
  One line of a text file or of the console. \<open>Text\<close> is a line given by its characters;
  the other constructors are lines whose characters the model does not spell out:
  the record \<open>csv.writer.writerow\<close> writes for a list of fields, the summary of a
  hydration (\<open>"Total: {}, collected {}, recovered %: {}"\<close> with its three arguments) and
  the summary of an extraction (\<open>"Result for file: {} ..."\<close> with its four arguments).
\<close>

datatype line =
    Text string
  | CsvRecord "string list"
  | Summary nat nat pyfloat
  | Result string nat nat nat

text \<open>
  The part of the machine the pipeline touches: the text files by path, the directory
  listings \<open>os.scandir\<close> gives (name and \<open>is_dir\<close> of each entry, in the order of
  enumeration), the paths that \<open>open(..., 'w')\<close> is refused on, and what has been
  printed. The program writes only next to the file it is processing, in a directory
  it has already listed, so the listings are not updated by a write.
\<close>

record world =
  files :: "string \<rightharpoonup> line list"
  dirs :: "string \<rightharpoonup> (string \<times> bool) list"
  readonly :: "string set"
  stdout :: "line list"

text \<open>
  What a call hands back to its caller. Every function of the pipeline is modelled with
  the result type \<open>(pyerr + pyval) \<times> world\<close>: the exception raised or the value
  returned, and the state of the machine at that moment.
\<close>

datatype pyval =
    PyNone
  | PyStrList "string list"
  | PyIdSets "string set" "string set" "string set"
  | PyReport nat nat pyfloat

definition print :: "line \<Rightarrow> world \<Rightarrow> world" where
  "print l w = w\<lparr>stdout := stdout w @ [l]\<rparr>"

text \<open>
  \<open>open(p)\<close> for reading, iterated: the lines of the file. A path that is no file of
  the machine raises; the model gives \<open>FileNotFoundError\<close> also where Python would say
  \<open>IsADirectoryError\<close>, and likewise for a listing of a path that is no directory.
\<close>

definition open_r :: "string \<Rightarrow> world \<Rightarrow> pyerr + line list" where
  "open_r p w = (case files w p of None \<Rightarrow> Inl (FileNotFoundError p) | Some ls \<Rightarrow> Inr ls)"

text \<open>\<open>open(p, 'w')\<close>: the file is created or truncated.\<close>

definition open_w :: "string \<Rightarrow> world \<Rightarrow> pyerr + world" where
  "open_w p w =
     (if p \<in> readonly w then Inl (PermissionError p)
      else Inr (w\<lparr>files := (files w)(p \<mapsto> [])\<rparr>))"

text \<open>Lines written to the open file \<open>p\<close>, after what it holds.\<close>

definition fwrite :: "string \<Rightarrow> line list \<Rightarrow> world \<Rightarrow> world" where
  "fwrite p ls w =
     w\<lparr>files := (files w)(p \<mapsto> (case files w p of None \<Rightarrow> ls | Some old \<Rightarrow> old @ ls))\<rparr>"

subsection \<open>\<open>os.path\<close> (POSIX)\<close>

definition path_split :: "string \<Rightarrow> string \<times> string" where
  "path_split p =
     (let tail = rev (takeWhile (\<lambda>c. c \<noteq> CHR ''/'') (rev p));
          head = rev (dropWhile (\<lambda>c. c \<noteq> CHR ''/'') (rev p))
      in (if head \<noteq> [] \<and> (\<exists>c \<in> set head. c \<noteq> CHR ''/'')
          then rev (dropWhile (\<lambda>c. c = CHR ''/'') (rev head)) else head,
          tail))"

definition path_join :: "string \<Rightarrow> string \<Rightarrow> string" where
  "path_join a b =
     (if take 1 b = ''/'' then b
      else if a = [] \<or> last a = CHR ''/'' then a @ b
      else a @ ''/'' @ b)"

text \<open>
  \<open>os.path.splitext(p)[-1]\<close>: the extension starts at the last dot of the last
  component, unless only dots come before it there.
\<close>

definition splitext_ext :: "string \<Rightarrow> string" where
  "splitext_ext p =
     (let base = rev (takeWhile (\<lambda>c. c \<noteq> CHR ''/'') (rev p))
      in if CHR ''.'' \<notin> set base then []
         else let after = rev (takeWhile (\<lambda>c. c \<noteq> CHR ''.'') (rev base));
                  stem = take (length base - length after - 1) base
              in if \<exists>c \<in> set stem. c \<noteq> CHR ''.'' then CHR ''.'' # after else [])"

text \<open>\<open>s.find(sub)\<close>: the lowest index where \<open>sub\<close> starts in \<open>s\<close>, or \<open>-1\<close>.\<close>

fun str_find_from :: "int \<Rightarrow> string \<Rightarrow> string \<Rightarrow> int" where
  "str_find_from i [] sub = (if sub = [] then i else - 1)"
| "str_find_from i (c # cs) sub =
     (if take (length sub) (c # cs) = sub then i else str_find_from (i + 1) cs sub)"

definition str_find :: "string \<Rightarrow> string \<Rightarrow> int" where
  "str_find s sub = str_find_from 0 s sub"

text \<open>
  \<open>str(f)\<close> of a directory entry, \<open>"<DirEntry 'name'>"\<close>, for a name that \<open>repr\<close>
  leaves as it is (printable, without quote or backslash).
\<close>

definition DirEntry_str :: "string \<Rightarrow> string" where
  "DirEntry_str name = ''<DirEntry '' @ [CHR 0x27] @ name @ [CHR 0x27] @ ''>''"

text \<open>\<open>[f.path for f in os.scandir(folder) if keep f]\<close>, the test given name and path.\<close>

definition scandir_paths ::
  "string \<Rightarrow> (string \<times> bool \<Rightarrow> string \<Rightarrow> bool) \<Rightarrow> world \<Rightarrow> pyerr + string list" where
  "scandir_paths folder keep w =
     (case dirs w folder of
        None \<Rightarrow> Inl (FileNotFoundError folder)
      | Some entries \<Rightarrow>
          Inr (map (\<lambda>ent. path_join folder (fst ent))
                 (filter (\<lambda>ent. keep ent (path_join folder (fst ent))) entries)))"

section \<open>The Extractor: \<open>externaltweets\<close>\<close>

text \<open>
  The block \<open>with open(path, newline='') as csvfile\<close>. The csv tokenizer is a library
  of its own and is a parameter of the model: from the lines of the file it gives the
  records it could read and, when it stopped at a line it refuses (a NUL byte, as
  the notes of the source report), the error it raised there. The rows read before
  that line are scanned first.
\<close>

type_synonym tokenizer = "line list \<Rightarrow> string list list \<times> pyerr option"

definition read_ids :: "string list list \<times> pyerr option \<Rightarrow> pyerr + idsets" where
  "read_ids tok =
     (case scan_rows (DictReader (fst tok)) no_ids of
        Inl e \<Rightarrow> Inl e
      | Inr s \<Rightarrow> (case snd tok of Some e \<Rightarrow> Inl e | None \<Rightarrow> Inr s))"

text \<open>
  One block \<open>with open(outpath, 'w', ...) as f\<close>: a record for every member of the
  set. Python leaves the order in which a set is iterated unspecified; that order is
  the parameter \<open>order\<close>.
\<close>

definition write_ids ::
  "(string set \<Rightarrow> string list) \<Rightarrow> string \<Rightarrow> string set \<Rightarrow> world \<Rightarrow> pyerr + world" where
  "write_ids order p S w =
     (case open_w p w of
        Inl e \<Rightarrow> Inl e
      | Inr w1 \<Rightarrow> Inr (fwrite p (map (\<lambda>msg. CsvRecord [msg]) (order S)) w1))"

definition externaltweets ::
  "tokenizer \<Rightarrow> (string set \<Rightarrow> string list) \<Rightarrow> string \<Rightarrow>
   string option \<Rightarrow> string option \<Rightarrow> string option \<Rightarrow> world \<Rightarrow> (pyerr + pyval) \<times> world" where
  "externaltweets tokenize order path outpath_rt outpath_rp outpath_qt w =
     (let outfolder = fst (path_split path);
          fname = snd (path_split path);
          ind = str_find fname ''tweet'';
          outname = fname;
          outpath_qt = (case outpath_qt of
                          None \<Rightarrow> path_join outfolder (outname @ ''_quotes'') | Some p \<Rightarrow> p);
          outpath_rt = (case outpath_rt of
                          None \<Rightarrow> path_join outfolder (outname @ ''_retweets'') | Some p \<Rightarrow> p);
          outpath_rp = (case outpath_rp of
                          None \<Rightarrow> path_join outfolder (outname @ ''_replies'') | Some p \<Rightarrow> p)
      in case open_r path w of
           Inl e \<Rightarrow> (Inl e, w)
         | Inr ls \<Rightarrow>
             (case read_ids (tokenize ls) of
                Inl e \<Rightarrow> (Inl e, w)
              | Inr s \<Rightarrow>
                  (case write_ids order outpath_rt (retweets s) w of
                     Inl e \<Rightarrow> (Inl e, w)
                   | Inr w1 \<Rightarrow>
                       (case write_ids order outpath_rp (replies s) w1 of
                          Inl e \<Rightarrow> (Inl e, w1)
                        | Inr w2 \<Rightarrow>
                            (case write_ids order outpath_qt (quotes s) w2 of
                               Inl e \<Rightarrow> (Inl e, w2)
                             | Inr w3 \<Rightarrow>
                                 (Inr PyNone,
                                  print (Result fname (card (retweets s)) (card (replies s))
                                           (card (quotes s))) w3))))))"

section \<open>The walkers and the Hydrator\<close>

type_synonym file_method = "string \<Rightarrow> world \<Rightarrow> (pyerr + pyval) \<times> world"

text \<open>
  The loop \<open>for f in files\<close> of \<open>getfiles\<close>, on the pair of the list \<open>problems\<close>
  and the machine. The bare \<open>except:\<close> catches every exception.
\<close>

fun getfiles_files :: "file_method \<Rightarrow> string list \<Rightarrow> string list \<times> world \<Rightarrow> string list \<times> world" where
  "getfiles_files method [] (problems, w) = (problems, w)"
| "getfiles_files method (f # fs) (problems, w) =
     (case method f (print (Text (''working on:  '' @ f)) w) of
        (Inr v, w1) \<Rightarrow> getfiles_files method fs (problems, w1)
      | (Inl e, w1) \<Rightarrow>
          getfiles_files method fs (problems @ [f], print (Text (''problem with '' @ f)) w1))"

definition tweets_csv :: "string \<times> bool \<Rightarrow> string \<Rightarrow> bool" where
  "tweets_csv ent p \<longleftrightarrow>
     str_find (DirEntry_str (fst ent)) ''_tweets'' > 0 \<and> splitext_ext p = ''.csv''"

fun getfiles_subfolders ::
  "file_method \<Rightarrow> string list \<Rightarrow> string list \<times> world \<Rightarrow> (pyerr + string list) \<times> world" where
  "getfiles_subfolders method [] (problems, w) = (Inr problems, w)"
| "getfiles_subfolders method (subfolder # rest) (problems, w) =
     (case scandir_paths subfolder tweets_csv w of
        Inl e \<Rightarrow> (Inl e, w)
      | Inr fs \<Rightarrow> getfiles_subfolders method rest (getfiles_files method fs (problems, w)))"

text \<open>The end of both walkers: the heading, then \<open>for p in problems: print(p)\<close>.\<close>

definition print_problems :: "string list \<Rightarrow> world \<Rightarrow> world" where
  "print_problems problems w =
     fold (\<lambda>p. print (Text p)) problems
       (print (Text ''The following files generated an error when parsing:'') w)"

definition getfiles :: "file_method \<Rightarrow> string \<Rightarrow> world \<Rightarrow> (pyerr + pyval) \<times> world" where
  "getfiles method datafolder w =
     (case scandir_paths datafolder (\<lambda>ent p. snd ent) w of
        Inl e \<Rightarrow> (Inl e, w)
      | Inr subfolders \<Rightarrow>
          (case getfiles_subfolders method subfolders ([], w) of
             (Inl e, w1) \<Rightarrow> (Inl e, w1)
           | (Inr problems, w1) \<Rightarrow> (Inr PyNone, print_problems problems w1)))"

text \<open>
  The Twarc client is outside the repository: the constructor may raise (it validates
  the keys over the network), and \<open>hydrate\<close> yields, for the lines of identifiers it
  is given, a finite sequence of records and possibly an error after them. A record is
  identified with the text \<open>json.dumps\<close> gives for it.
\<close>

record twarc =
  connect :: "pyerr option"
  hydrate :: "line list \<Rightarrow> string list \<times> pyerr option"

definition harvest_external_data :: "twarc \<Rightarrow> string \<Rightarrow> world \<Rightarrow> (pyerr + pyval) \<times> world" where
  "harvest_external_data t path w =
     (case connect t of
        Some e \<Rightarrow> (Inl e, w)
      | None \<Rightarrow>
          (case open_r path w of
             Inl e \<Rightarrow> (Inl e, w)
           | Inr ls \<Rightarrow>
               (let num_lines = length ls;
                    outpath = path @ ''.jsonl'';
                    w1 = print (Text (''working on '' @ path)) w
                in case open_w outpath w1 of
                     Inl e \<Rightarrow> (Inl e, w1)
                   | Inr w2 \<Rightarrow>
                       (case open_r path w2 of
                          Inl e \<Rightarrow> (Inl e, w2)
                        | Inr ids \<Rightarrow>
                            (let tweets = fst (hydrate t ids);
                                 collected = length tweets;
                                 w3 = fwrite outpath (map Text tweets) w2
                             in case snd (hydrate t ids) of
                                  Some e \<Rightarrow> (Inl e, w3)
                                | None \<Rightarrow>
                                    (case open_w (path @ ''.log'') w3 of
                                       Inl e \<Rightarrow> (Inl e, w3)
                                     | Inr w4 \<Rightarrow>
                                         (case recovered_percent collected num_lines of
                                            Inl e \<Rightarrow> (Inl e, w4)
                                          | Inr pct \<Rightarrow>
                                              (Inr PyNone,
                                               fwrite (path @ ''.log'')
                                                 [Summary num_lines collected pct] w4))))))))"

fun harvestfiles_files :: "twarc \<Rightarrow> string list \<Rightarrow> string list \<times> world \<Rightarrow> string list \<times> world" where
  "harvestfiles_files t [] (problems, w) = (problems, w)"
| "harvestfiles_files t (f # fs) (problems, w) =
     (case harvest_external_data t f (print (Text (''working on:  '' @ f)) w) of
        (Inr v, w1) \<Rightarrow> harvestfiles_files t fs (problems, w1)
      | (Inl e, w1) \<Rightarrow> harvestfiles_files t fs (problems @ [f], w1))"

definition retweets_or_replies :: "string \<times> bool \<Rightarrow> string \<Rightarrow> bool" where
  "retweets_or_replies ent p \<longleftrightarrow>
     splitext_ext p = ''.csv_retweets'' \<or> splitext_ext p = ''.csv_replies''"

fun harvestfiles_subfolders ::
  "twarc \<Rightarrow> string list \<Rightarrow> string list \<times> world \<Rightarrow> (pyerr + string list) \<times> world" where
  "harvestfiles_subfolders t [] (problems, w) = (Inr problems, w)"
| "harvestfiles_subfolders t (subfolder # rest) (problems, w) =
     (case scandir_paths subfolder retweets_or_replies w of
        Inl e \<Rightarrow> (Inl e, w)
      | Inr fs \<Rightarrow> harvestfiles_subfolders t rest (harvestfiles_files t fs (problems, w)))"

definition harvestfiles :: "twarc \<Rightarrow> string \<Rightarrow> world \<Rightarrow> (pyerr + pyval) \<times> world" where
  "harvestfiles t datafolder w =
     (case scandir_paths datafolder (\<lambda>ent p. snd ent) w of
        Inl e \<Rightarrow> (Inl e, w)
      | Inr subfolders \<Rightarrow>
          (case harvestfiles_subfolders t subfolders ([], w) of
             (Inl e, w1) \<Rightarrow> (Inl e, w1)
           | (Inr problems, w1) \<Rightarrow> (Inr PyNone, print_problems problems w1)))"

section \<open>What a completed call leaves behind\<close>

text \<open>
  Abbreviations that the statements below use. None is part of the program:
  \<open>outpath\<close> is the default output path of \<open>externaltweets\<close> for a suffix, and the
  other two describe the machine after the writes of \<open>externaltweets\<close> (with its
  default paths) and of \<open>harvest_external_data\<close>.
\<close>

definition outpath :: "string \<Rightarrow> string \<Rightarrow> string" where
  "outpath path suffix = path_join (fst (path_split path)) (snd (path_split path) @ suffix)"

definition extract_files_after ::
  "(string set \<Rightarrow> string list) \<Rightarrow> string \<Rightarrow> idsets \<Rightarrow> world \<Rightarrow> world" where
  "extract_files_after order path s w =
     w\<lparr>files := (files w)
          (outpath path ''_retweets'' \<mapsto> map (\<lambda>msg. CsvRecord [msg]) (order (retweets s)),
           outpath path ''_replies'' \<mapsto> map (\<lambda>msg. CsvRecord [msg]) (order (replies s)),
           outpath path ''_quotes'' \<mapsto> map (\<lambda>msg. CsvRecord [msg]) (order (quotes s))),
       stdout := stdout w @
          [Result (snd (path_split path)) (card (retweets s)) (card (replies s)) (card (quotes s))]\<rparr>"

definition harvest_files_after :: "string \<Rightarrow> string list \<Rightarrow> line list \<Rightarrow> world \<Rightarrow> world" where
  "harvest_files_after path tweets report w =
     w\<lparr>files := (files w)(path @ ''.jsonl'' \<mapsto> map Text tweets, path @ ''.log'' \<mapsto> report),
       stdout := stdout w @ [Text (''working on '' @ path)]\<rparr>"

text \<open>
  The files a walker finds: \<open>listed\<close> is the listing of one subfolder under a test
  (empty when the subfolder cannot be listed), \<open>matching_files\<close> the listings of the
  subfolders one after the other.
\<close>

definition listed :: "(string \<times> bool \<Rightarrow> string \<Rightarrow> bool) \<Rightarrow> world \<Rightarrow> string \<Rightarrow> string list" where
  "listed keep w folder = (case scandir_paths folder keep w of Inl e \<Rightarrow> [] | Inr fs \<Rightarrow> fs)"

definition matching_files ::
  "(string \<times> bool \<Rightarrow> string \<Rightarrow> bool) \<Rightarrow> world \<Rightarrow> string list \<Rightarrow> string list" where
  "matching_files keep w subfolders = concat (map (listed keep w) subfolders)"

section \<open>Example inputs\<close>

text \<open>
  A tokenized file of the dataset: the header, two rows that retweet the external
  tweet 111 (the second also replies to 222, with a user id), an empty record, and a
  row that retweets a tweet of the dataset, replies to 222 and quotes 333.
\<close>

definition demo_header :: "string list" where
  "demo_header =
     [''tweetid'', ''retweet_userid'', ''retweet_tweetid'', ''in_reply_to_userid'',
      ''in_reply_to_tweetid'', ''quoted_tweet_tweetid'']"

definition demo_records :: "string list list" where
  "demo_records =
     [demo_header,
      [''1'', [], ''111'', [], [], []],
      [''2'', [], ''111'', ''77'', ''222'', []],
      [],
      [''3'', ''55'', ''444'', [], ''222'', ''333'']]"

definition demo_ids :: idsets where
  "demo_ids = \<lparr>retweets = {''111''}, replies = {''222''}, quotes = {''333''}\<rparr>"

text \<open>
  A tokenizer for the examples: it reads back the records that \<open>csv.writer\<close> wrote, and
  refuses any other line.
\<close>

definition is_record :: "line \<Rightarrow> bool" where
  "is_record l = (case l of CsvRecord fs \<Rightarrow> True | _ \<Rightarrow> False)"

definition demo_tokenize :: tokenizer where
  "demo_tokenize ls =
     (map (\<lambda>l. case l of CsvRecord fs \<Rightarrow> fs | _ \<Rightarrow> []) (takeWhile is_record ls),
      if list_all is_record ls then None else Some CsvError)"

text \<open>\<open>method(f)\<close> with the default method, the sets iterated in sorted order.\<close>

definition demo_method :: file_method where
  "demo_method f = externaltweets demo_tokenize sorted_list_of_set f None None None"

text \<open>
  A data folder for the Extractor: three matching files, the second without the columns
  the scan reads, the third with a header only; and the machine after each of them.
\<close>

definition extract_world :: world where
  "extract_world =
     \<lparr>files = [''r/s/a_tweets.csv'' \<mapsto> map CsvRecord demo_records,
               ''r/s/b_tweets.csv'' \<mapsto> [CsvRecord [''tweetid''], CsvRecord [''1'']],
               ''r/s/c_tweets.csv'' \<mapsto> [CsvRecord demo_header]],
      dirs = [''r'' \<mapsto> [(''s'', True), (''notes.txt'', False)],
              ''r/s'' \<mapsto> [(''a_tweets.csv'', False), (''b_tweets.csv'', False),
                             (''c_tweets.csv'', False), (''a_tweets.txt'', False)]],
      readonly = {},
      stdout = []\<rparr>"

definition extract_world_a :: world where
  "extract_world_a =
     extract_files_after sorted_list_of_set ''r/s/a_tweets.csv'' demo_ids
       (print (Text (''working on:  '' @ ''r/s/a_tweets.csv'')) extract_world)"

definition extract_world_b :: world where
  "extract_world_b =
     print (Text (''problem with '' @ ''r/s/b_tweets.csv''))
       (print (Text (''working on:  '' @ ''r/s/b_tweets.csv'')) extract_world_a)"

definition extract_world_c :: world where
  "extract_world_c =
     extract_files_after sorted_list_of_set ''r/s/c_tweets.csv'' no_ids
       (print (Text (''working on:  '' @ ''r/s/c_tweets.csv'')) extract_world_b)"

text \<open>
  A data folder for the Hydrator: a list of ten identifiers of which the client
  recovers seven, an empty list, and a list of one identifier; and the machine after
  each of them.
\<close>

definition ten_ids :: "line list" where
  "ten_ids = [Text ''1'', Text ''0'', Text ''2'', Text ''3'', Text ''0'',
              Text ''4'', Text ''5'', Text ''0'', Text ''6'', Text ''7'']"

definition seven_tweets :: "string list" where
  "seven_tweets =
     [''tweet 1'', ''tweet 2'', ''tweet 3'', ''tweet 4'', ''tweet 5'', ''tweet 6'', ''tweet 7'']"

definition demo_twarc :: twarc where
  "demo_twarc =
     \<lparr>connect = None,
      hydrate = (\<lambda>ids. (map (\<lambda>l. case l of Text s \<Rightarrow> ''tweet '' @ s | _ \<Rightarrow> [])
                            (filter (\<lambda>l. l \<noteq> Text ''0'') ids), None))\<rparr>"

definition hydrate_world :: world where
  "hydrate_world =
     \<lparr>files = [''r/s/a.csv_retweets'' \<mapsto> ten_ids,
               ''r/s/b.csv_retweets'' \<mapsto> [],
               ''r/s/c.csv_replies'' \<mapsto> [Text ''8'']],
      dirs = [''r'' \<mapsto> [(''s'', True), (''notes.txt'', False)],
              ''r/s'' \<mapsto> [(''a.csv_retweets'', False), (''b.csv_retweets'', False),
                             (''c.csv_replies'', False), (''a_tweets.csv'', False)]],
      readonly = {},
      stdout = []\<rparr>"

definition hydrate_world_a :: world where
  "hydrate_world_a =
     harvest_files_after ''r/s/a.csv_retweets'' seven_tweets [Summary 10 7 (Float 70)]
       (print (Text (''working on:  '' @ ''r/s/a.csv_retweets'')) hydrate_world)"

definition hydrate_world_b :: world where
  "hydrate_world_b =
     harvest_files_after ''r/s/b.csv_retweets'' [] []
       (print (Text (''working on:  '' @ ''r/s/b.csv_retweets'')) hydrate_world_a)"

definition hydrate_world_c :: world where
  "hydrate_world_c =
     harvest_files_after ''r/s/c.csv_replies'' [''tweet 8''] [Summary 1 1 (Float 100)]
       (print (Text (''working on:  '' @ ''r/s/c.csv_replies'')) hydrate_world_b)"

text \<open>
  A data folder with three subfolders of which the second cannot be listed: the first
  holds a file with a header only and a file without the columns the scan reads, the
  third a file with a header only; and the machine after each of the first two files.
\<close>

definition blocked_world :: world where
  "blocked_world =
     \<lparr>files = [''r/s1/a_tweets.csv'' \<mapsto> [CsvRecord demo_header],
               ''r/s1/b_tweets.csv'' \<mapsto> [CsvRecord [''tweetid''], CsvRecord [''1'']],
               ''r/s3/c_tweets.csv'' \<mapsto> [CsvRecord demo_header]],
      dirs = [''r'' \<mapsto> [(''s1'', True), (''s2'', True), (''s3'', True)],
              ''r/s1'' \<mapsto> [(''a_tweets.csv'', False), (''b_tweets.csv'', False)],
              ''r/s3'' \<mapsto> [(''c_tweets.csv'', False)]],
      readonly = {},
      stdout = []\<rparr>"

definition blocked_world_a :: world where
  "blocked_world_a =
     extract_files_after sorted_list_of_set ''r/s1/a_tweets.csv'' no_ids
       (print (Text (''working on:  '' @ ''r/s1/a_tweets.csv'')) blocked_world)"

definition blocked_world_b :: world where
  "blocked_world_b =
     print (Text (''problem with '' @ ''r/s1/b_tweets.csv''))
       (print (Text (''working on:  '' @ ''r/s1/b_tweets.csv'')) blocked_world_a)"

section \<open>The library models on known values\<close>

text \<open>
  Values that Python gives for the library functions modelled above, as checks of the
  models: \<open>os.path.split\<close>, \<open>os.path.join\<close>, \<open>os.path.splitext\<close>, \<open>str.find\<close>,
  and the floats \<open>1/3\<close> and \<open>0.57*100\<close> (which is \<open>56.99999999999999\<close>, not 57).
\<close>

lemma path_split_examples:
  "path_split ''a/b.csv'' = (''a'', ''b.csv'')"
  "path_split ''a//b'' = (''a'', ''b'')"
  "path_split ''/x'' = (''/'', ''x'')"
  "path_split ''b'' = ([], ''b'')"
  "path_split ''a/'' = (''a'', [])"
  by (simp_all add: path_split_def)

lemma path_join_examples:
  "path_join ''a'' ''b'' = ''a/b''"
  "path_join ''a/'' ''b'' = ''a/b''"
  "path_join [] ''b'' = ''b''"
  "path_join ''a'' ''/b'' = ''/b''"
  by (simp_all add: path_join_def)

lemma splitext_ext_examples:
  "splitext_ext ''d/x_tweets.csv'' = ''.csv''"
  "splitext_ext ''d/x.csv_retweets'' = ''.csv_retweets''"
  "splitext_ext ''d/.hidden'' = []"
  "splitext_ext ''d.e/x'' = []"
  "splitext_ext ''d/..x.y'' = ''.y''"
  by (simp_all add: splitext_ext_def)

lemma str_find_examples:
  "str_find ''abc_tweets.csv'' ''_tweets'' = 3"
  "str_find ''abc'' ''_tweets'' = - 1"
  "str_find ''abc'' [] = 0"
  "str_find (DirEntry_str ''_tweets.csv'') ''_tweets'' = 11"
  by (simp_all add: str_find_def DirEntry_str_def)

lemma fl_examples:
  "fl (1 / 3) = 6004799503160661 / 18014398509481984"
  "fl (57 / 100) = 5134103575202365 / 9007199254740992"
  "fl (5134103575202365 / 9007199254740992 * 100) = 8022036836253695 / 140737488355328"
  by code_simp+

section \<open>The scan of the rows\<close>

lemma scan_row_retweets:
  "scan_row r s = Inr s' \<Longrightarrow>
   retweets s' = retweets s \<union>
     {t. field r ''retweet_userid'' = Inr [] \<and> field r ''retweet_tweetid'' = Inr t \<and> t \<noteq> []}"
  by (auto simp: scan_row_def external_retweets_def split: sum.splits if_splits)

lemma scan_row_replies:
  "scan_row r s = Inr s' \<Longrightarrow>
   replies s' = replies s \<union> {t. field r ''in_reply_to_tweetid'' = Inr t \<and> t \<noteq> []}"
  by (auto simp: scan_row_def external_replies_def split: sum.splits if_splits)

lemma scan_row_quotes:
  "scan_row r s = Inr s' \<Longrightarrow>
   quotes s' = quotes s \<union> {t. field r ''quoted_tweet_tweetid'' = Inr t \<and> t \<noteq> []}"
  by (auto simp: scan_row_def external_quotes_def split: sum.splits if_splits)

lemma scan_rows_Cons_Inr:
  "scan_rows (r # rows) s = Inr s' \<Longrightarrow>
   \<exists>s1. scan_row r s = Inr s1 \<and> scan_rows rows s1 = Inr s'"
  by (auto split: sum.splits)

lemma scan_rows_retweets:
  "scan_rows rows s = Inr s' \<Longrightarrow>
   retweets s' = retweets s \<union>
     {t. \<exists>r \<in> set rows. field r ''retweet_userid'' = Inr [] \<and>
           field r ''retweet_tweetid'' = Inr t \<and> t \<noteq> []}"
proof (induction rows arbitrary: s)
  case Nil
  then show ?case by simp
next
  case (Cons r rows)
  from scan_rows_Cons_Inr[OF Cons.prems]
  obtain s1 where 1: "scan_row r s = Inr s1" and 2: "scan_rows rows s1 = Inr s'"
    by blast
  show ?case
    unfolding Cons.IH[OF 2] scan_row_retweets[OF 1] by auto
qed

lemma scan_rows_replies:
  "scan_rows rows s = Inr s' \<Longrightarrow>
   replies s' = replies s \<union>
     {t. \<exists>r \<in> set rows. field r ''in_reply_to_tweetid'' = Inr t \<and> t \<noteq> []}"
proof (induction rows arbitrary: s)
  case Nil
  then show ?case by simp
next
  case (Cons r rows)
  from scan_rows_Cons_Inr[OF Cons.prems]
  obtain s1 where 1: "scan_row r s = Inr s1" and 2: "scan_rows rows s1 = Inr s'"
    by blast
  show ?case
    unfolding Cons.IH[OF 2] scan_row_replies[OF 1] by auto
qed

lemma scan_rows_quotes:
  "scan_rows rows s = Inr s' \<Longrightarrow>
   quotes s' = quotes s \<union>
     {t. \<exists>r \<in> set rows. field r ''quoted_tweet_tweetid'' = Inr t \<and> t \<noteq> []}"
proof (induction rows arbitrary: s)
  case Nil
  then show ?case by simp
next
  case (Cons r rows)
  from scan_rows_Cons_Inr[OF Cons.prems]
  obtain s1 where 1: "scan_row r s = Inr s1" and 2: "scan_rows rows s1 = Inr s'"
    by blast
  show ?case
    unfolding Cons.IH[OF 2] scan_row_quotes[OF 1] by auto
qed

lemma read_ids_Inr:
  "read_ids tok = Inr s \<Longrightarrow> scan_rows (DictReader (fst tok)) no_ids = Inr s"
  by (auto simp: read_ids_def split: sum.splits option.splits)

lemma field_upd_same: "field (r(k \<mapsto> Str u)) k = Inr u"
  by (simp add: field_def)

lemma field_upd_other: "k \<noteq> k' \<Longrightarrow> field (r(k \<mapsto> v)) k' = field r k'"
  by (simp add: field_def)

lemma external_replies_userid:
  "external_replies (r(''in_reply_to_userid'' \<mapsto> Str u)) S =
     (case field r ''in_reply_to_tweetid'' of
        Inl e \<Rightarrow> Inl e
      | Inr tweetid \<Rightarrow> Inr (if length tweetid > 0 then insert tweetid S else S))"
  by (simp add: external_replies_def field_upd_same field_upd_other split: sum.splits)

lemma scan_row_userid_irrelevant:
  "scan_row (r(''in_reply_to_userid'' \<mapsto> Str u)) s =
   scan_row (r(''in_reply_to_userid'' \<mapsto> Str v)) s"
  unfolding scan_row_def external_replies_userid
  by (simp add: external_retweets_def external_quotes_def field_upd_other split: sum.splits)

lemma scan_rows_userid_irrelevant:
  "scan_rows (map (\<lambda>r. r(''in_reply_to_userid'' \<mapsto> Str (f r))) rows) s
   = scan_rows (map (\<lambda>r. r(''in_reply_to_userid'' \<mapsto> Str (g r))) rows) s"
proof (induction rows arbitrary: s)
  case Nil
  then show ?case by simp
next
  case (Cons r rows)
  have "scan_row (r(''in_reply_to_userid'' \<mapsto> Str (f r))) s
      = scan_row (r(''in_reply_to_userid'' \<mapsto> Str (g r))) s"
    by (rule scan_row_userid_irrelevant)
  then show ?case
    by (cases "scan_row (r(''in_reply_to_userid'' \<mapsto> Str (g r))) s")
       (simp_all only: list.map scan_rows.simps Cons.IH sum.case)
qed

lemma distinct_count_list: "distinct ls \<Longrightarrow> t \<in> set ls \<Longrightarrow> count_list ls t = 1"
  by (induction ls) auto

lemma demo_scan: "read_ids (demo_records, None) = Inr demo_ids"
  by (simp add: read_ids_def demo_records_def demo_header_def DictReader_def DictReader_row_def
      dict_zip_def scan_row_def external_retweets_def external_replies_def external_quotes_def
      field_def no_ids_def demo_ids_def)

text \<open>
  C1. Whenever the scan of a file succeeds, the retweet set holds exactly the
  \<open>retweet_tweetid\<close> of the rows whose \<open>retweet_userid\<close> is empty and whose
  \<open>retweet_tweetid\<close> is not: every such row contributes, no other row does. The set
  holds each identifier once: whatever order the writer loop iterates the set in,
  the identifier comes up exactly once, however many rows carried it.
\<close>

theorem retweet_set_exact:
  assumes "read_ids tok = Inr s"
  shows "retweets s =
           {t. \<exists>r \<in> set (DictReader (fst tok)).
                 field r ''retweet_userid'' = Inr [] \<and>
                 field r ''retweet_tweetid'' = Inr t \<and> t \<noteq> []}
         \<and> (\<forall>ls. distinct ls \<and> set ls = retweets s \<longrightarrow>
               (\<forall>t \<in> retweets s. count_list ls t = 1))"
proof
  show "retweets s =
           {t. \<exists>r \<in> set (DictReader (fst tok)).
                 field r ''retweet_userid'' = Inr [] \<and>
                 field r ''retweet_tweetid'' = Inr t \<and> t \<noteq> []}"
    using scan_rows_retweets[OF read_ids_Inr[OF assms]] by (simp add: no_ids_def)
  show "\<forall>ls. distinct ls \<and> set ls = retweets s \<longrightarrow> (\<forall>t \<in> retweets s. count_list ls t = 1)"
    by (metis distinct_count_list)
qed

theorem retweet_set_exact_witness:
  "read_ids (demo_records, None) = Inr demo_ids
   \<and> retweets demo_ids = {''111''}
   \<and> {t. \<exists>r \<in> set (DictReader demo_records).
            field r ''retweet_userid'' = Inr [] \<and>
            field r ''retweet_tweetid'' = Inr t \<and> t \<noteq> []} = {''111''}
   \<and> count_list [''111''] ''111'' = 1"
  using retweet_set_exact[OF demo_scan] by (simp add: demo_scan demo_ids_def)

text \<open>
  C2. Whenever the scan of a file succeeds, the reply set holds exactly the non-empty
  \<open>in_reply_to_tweetid\<close> values of the rows: the description of the set does not
  mention \<open>in_reply_to_userid\<close>. And the whole outcome of the scan is the same
  whatever strings stand in the column \<open>in_reply_to_userid\<close>, the empty string
  included: the test on the user id suppresses nothing. (A row that has no string
  there at all, because the column is missing or the record is too short, is a
  malformed row: \<open>len\<close> raises and the scan of the file fails.)
\<close>

theorem reply_set_ignores_userid:
  "(read_ids tok = Inr s \<longrightarrow>
      replies s =
        {t. \<exists>r \<in> set (DictReader (fst tok)).
              field r ''in_reply_to_tweetid'' = Inr t \<and> t \<noteq> []})
   \<and> scan_rows (map (\<lambda>r. r(''in_reply_to_userid'' \<mapsto> Str (f r))) rows) s0
     = scan_rows (map (\<lambda>r. r(''in_reply_to_userid'' \<mapsto> Str (g r))) rows) s0"
proof
  show "read_ids tok = Inr s \<longrightarrow>
      replies s =
        {t. \<exists>r \<in> set (DictReader (fst tok)).
              field r ''in_reply_to_tweetid'' = Inr t \<and> t \<noteq> []}"
  proof
    assume "read_ids tok = Inr s"
    from scan_rows_replies[OF read_ids_Inr[OF this]]
    show "replies s =
        {t. \<exists>r \<in> set (DictReader (fst tok)).
              field r ''in_reply_to_tweetid'' = Inr t \<and> t \<noteq> []}"
      by (simp add: no_ids_def)
  qed
  show "scan_rows (map (\<lambda>r. r(''in_reply_to_userid'' \<mapsto> Str (f r))) rows) s0
     = scan_rows (map (\<lambda>r. r(''in_reply_to_userid'' \<mapsto> Str (g r))) rows) s0"
    by (rule scan_rows_userid_irrelevant)
qed

theorem reply_set_ignores_userid_witness:
  "read_ids (demo_records, None) = Inr demo_ids
   \<and> replies demo_ids = {''222''}
   \<and> {t. \<exists>r \<in> set (DictReader demo_records).
            field r ''in_reply_to_tweetid'' = Inr t \<and> t \<noteq> []} = {''222''}
   \<and> scan_rows (map (\<lambda>r. r(''in_reply_to_userid'' \<mapsto> Str [])) (DictReader demo_records)) no_ids
     = scan_rows (map (\<lambda>r. r(''in_reply_to_userid'' \<mapsto> Str ''77'')) (DictReader demo_records)) no_ids"
  using reply_set_ignores_userid[of "(demo_records, None)" demo_ids
          "\<lambda>r. []" "DictReader demo_records" no_ids "\<lambda>r. ''77''"]
  by (simp add: demo_scan demo_ids_def)

text \<open>
  C9. Whenever the scan of a file succeeds, the empty string is in none of the three
  sets.
\<close>

theorem ids_nonempty:
  assumes "read_ids tok = Inr s"
  shows "[] \<notin> retweets s \<and> [] \<notin> replies s \<and> [] \<notin> quotes s"
  using scan_rows_retweets[OF read_ids_Inr[OF assms]]
        scan_rows_replies[OF read_ids_Inr[OF assms]]
        scan_rows_quotes[OF read_ids_Inr[OF assms]]
  by (simp add: no_ids_def)

theorem ids_nonempty_witness:
  "read_ids (demo_records, None) = Inr demo_ids
   \<and> [] \<notin> retweets demo_ids \<and> [] \<notin> replies demo_ids \<and> [] \<notin> quotes demo_ids"
  using ids_nonempty[OF demo_scan] by (simp add: demo_scan demo_ids_def)

section \<open>The Hydrator\<close>

lemma recovered_percent_zero: "recovered_percent c 0 = Inl ZeroDivisionError"
  by (simp add: recovered_percent_def true_div_def)

lemma fl_7_10: "fl (7 / 10) = 3152519739159347 / 4503599627370496"
  by code_simp

lemma fl_7_10_finite: "\<not> pow2 1024 \<le> 3152519739159347 / 4503599627370496"
  by code_simp

lemma fl_70: "fl (3152519739159347 / 4503599627370496 * 100) = 70"
  by code_simp

lemma fl_70_finite: "\<not> pow2 1024 \<le> \<bar>70\<bar>"
  by code_simp

lemma round_70: "fl (of_int (round_half_even (70 * 100)) / 100) = 70"
  by code_simp

lemma recovered_percent_7_10: "recovered_percent 7 10 = Inr (Float 70)"
proof -
  have "true_div 7 10 = Inr (Float (3152519739159347 / 4503599627370496))"
    unfolding true_div_def Let_def using fl_7_10 fl_7_10_finite by simp
  moreover have "float_mul (Float (3152519739159347 / 4503599627370496)) 100 = Float 70"
    unfolding float_mul_def Let_def pyfloat.case fl_70 using fl_70_finite by simp
  moreover have "round_ndigits2 (Float 70) = Float 70"
    unfolding round_ndigits2_def pyfloat.case round_70 ..
  ultimately show ?thesis
    by (simp add: recovered_percent_def)
qed

lemma fl_1: "fl 1 = 1"
  by code_simp

lemma fl_1_finite: "\<not> pow2 1024 \<le> 1"
  by code_simp

lemma fl_100: "fl 100 = 100"
  by code_simp

lemma fl_100_finite: "\<not> pow2 1024 \<le> \<bar>100\<bar>"
  by code_simp

lemma round_100: "fl (of_int (round_half_even (100 * 100)) / 100) = 100"
  by code_simp

lemma recovered_percent_1_1: "recovered_percent 1 1 = Inr (Float 100)"
proof -
  have "true_div 1 1 = Inr (Float 1)"
    unfolding true_div_def Let_def using fl_1 fl_1_finite by simp
  moreover have "float_mul (Float 1) 100 = Float 100"
    unfolding float_mul_def Let_def pyfloat.case using fl_100 fl_100_finite by simp
  moreover have "round_ndigits2 (Float 100) = Float 100"
    unfolding round_ndigits2_def pyfloat.case round_100 ..
  ultimately show ?thesis
    by (simp add: recovered_percent_def)
qed

lemma files_print [simp]: "files (print l w) = files w"
  and dirs_print [simp]: "dirs (print l w) = dirs w"
  and readonly_print [simp]: "readonly (print l w) = readonly w"
  by (simp_all add: print_def)

lemma readonly_harvest_files_after [simp]:
  "readonly (harvest_files_after path tweets report w) = readonly w"
  by (simp add: harvest_files_after_def)

lemma log_after:
  "files (harvest_files_after path tweets report w) (path @ ''.log'') = Some report"
  by (simp add: harvest_files_after_def)

lemma jsonl_after:
  "files (harvest_files_after path tweets report w) (path @ ''.jsonl'') = Some (map Text tweets)"
  by (simp add: harvest_files_after_def)

text \<open>The run of the Hydrator when the connection, both \<open>open\<close> calls and the stream succeed.\<close>

lemma harvest_run:
  assumes "connect t = None" "files w path = Some ls" "hydrate t ls = (tweets, None)"
    "path @ ''.jsonl'' \<notin> readonly w" "path @ ''.log'' \<notin> readonly w"
  shows "harvest_external_data t path w =
         (case recovered_percent (length tweets) (length ls) of
            Inl e \<Rightarrow> (Inl e, harvest_files_after path tweets [] w)
          | Inr pct \<Rightarrow>
              (Inr PyNone,
               harvest_files_after path tweets [Summary (length ls) (length tweets) pct] w))"
  using assms
  by (auto simp: harvest_external_data_def harvest_files_after_def open_r_def open_w_def
        fwrite_def print_def Let_def
      split: sum.splits option.splits)

lemma harvest_Inr:
  assumes "harvest_external_data t path w = (Inr v, w')"
  shows "\<exists>ls pct. connect t = None \<and> files w path = Some ls \<and> snd (hydrate t ls) = None
          \<and> path @ ''.jsonl'' \<notin> readonly w \<and> path @ ''.log'' \<notin> readonly w
          \<and> recovered_percent (length (fst (hydrate t ls))) (length ls) = Inr pct
          \<and> v = PyNone
          \<and> w' = harvest_files_after path (fst (hydrate t ls))
                   [Summary (length ls) (length (fst (hydrate t ls))) pct] w"
  using assms
  by (auto simp: harvest_external_data_def harvest_files_after_def open_r_def open_w_def
        fwrite_def print_def Let_def
      split: sum.splits option.splits if_splits)

lemma harvest_seven_of_ten:
  assumes "connect t = None" "files w path = Some ls" "hydrate t ls = (tweets, None)"
    "path @ ''.jsonl'' \<notin> readonly w" "path @ ''.log'' \<notin> readonly w"
    "length ls = 10" "length tweets = 7"
  shows "harvest_external_data t path w =
           (Inr PyNone, harvest_files_after path tweets [Summary 10 7 (Float 70)] w)"
  unfolding harvest_run[OF assms(1-5)] assms(6,7) recovered_percent_7_10 by simp

lemma harvest_one_of_one:
  assumes "connect t = None" "files w path = Some ls" "hydrate t ls = (tweets, None)"
    "path @ ''.jsonl'' \<notin> readonly w" "path @ ''.log'' \<notin> readonly w"
    "length ls = 1" "length tweets = 1"
  shows "harvest_external_data t path w =
           (Inr PyNone, harvest_files_after path tweets [Summary 1 1 (Float 100)] w)"
  unfolding harvest_run[OF assms(1-5)] assms(6,7) recovered_percent_1_1 by simp

lemma harvest_empty:
  assumes "connect t = None" "files w path = Some []" "hydrate t [] = (tweets, None)"
    "path @ ''.jsonl'' \<notin> readonly w" "path @ ''.log'' \<notin> readonly w"
  shows "harvest_external_data t path w =
           (Inl ZeroDivisionError, harvest_files_after path tweets [] w)"
  unfolding harvest_run[OF assms(1-5)] by (simp add: recovered_percent_zero)

lemma demo_hydrate_ten: "hydrate demo_twarc ten_ids = (seven_tweets, None)"
  by (simp add: demo_twarc_def ten_ids_def seven_tweets_def)

lemma demo_harvest_a:
  "harvest_external_data demo_twarc ''r/s/a.csv_retweets'' hydrate_world
     = (Inr PyNone,
        harvest_files_after ''r/s/a.csv_retweets'' seven_tweets [Summary 10 7 (Float 70)]
          hydrate_world)"
  by (rule harvest_seven_of_ten[where ls = ten_ids])
     (simp_all add: demo_hydrate_ten, simp_all add: demo_twarc_def hydrate_world_def ten_ids_def
        seven_tweets_def)

lemma demo_harvest_b:
  "harvest_external_data demo_twarc ''r/s/b.csv_retweets'' hydrate_world
     = (Inl ZeroDivisionError, harvest_files_after ''r/s/b.csv_retweets'' [] [] hydrate_world)"
  by (rule harvest_empty) (simp_all add: demo_twarc_def hydrate_world_def)

text \<open>
  C3. On an input file of zero lines the percentage cannot be computed: the division
  raises \<open>ZeroDivisionError\<close> whatever was collected. So the Hydrator never returns
  normally on such a file; when the connection, the two \<open>open\<close> calls and the stream
  succeed, the exception it raises is that division error; and the report file
  afterwards is either as it was before the call or empty: no summary line, with a
  percentage of 0 or any other, is written for an empty input.
\<close>

theorem empty_input_raises:
  assumes "files w path = Some []"
  shows "recovered_percent c 0 = Inl ZeroDivisionError
     \<and> (\<forall>v. fst (harvest_external_data t path w) \<noteq> Inr v)
     \<and> (connect t = None \<and> snd (hydrate t []) = None \<and>
          path @ ''.jsonl'' \<notin> readonly w \<and> path @ ''.log'' \<notin> readonly w \<longrightarrow>
          fst (harvest_external_data t path w) = Inl ZeroDivisionError)
     \<and> (files (snd (harvest_external_data t path w)) (path @ ''.log'') = files w (path @ ''.log'')
          \<or> files (snd (harvest_external_data t path w)) (path @ ''.log'') = Some [])"
proof (intro conjI)
  show "recovered_percent c 0 = Inl ZeroDivisionError"
    by (rule recovered_percent_zero)
  show "\<forall>v. fst (harvest_external_data t path w) \<noteq> Inr v"
  proof (intro allI notI)
    fix v assume "fst (harvest_external_data t path w) = Inr v"
    then have "harvest_external_data t path w = (Inr v, snd (harvest_external_data t path w))"
      by (metis prod.collapse)
    from harvest_Inr[OF this] assms show False
      by (auto simp: recovered_percent_zero)
  qed
  show "connect t = None \<and> snd (hydrate t []) = None \<and>
          path @ ''.jsonl'' \<notin> readonly w \<and> path @ ''.log'' \<notin> readonly w \<longrightarrow>
          fst (harvest_external_data t path w) = Inl ZeroDivisionError"
  proof
    assume a: "connect t = None \<and> snd (hydrate t []) = None \<and>
          path @ ''.jsonl'' \<notin> readonly w \<and> path @ ''.log'' \<notin> readonly w"
    then have "hydrate t [] = (fst (hydrate t []), None)"
      by (metis prod.collapse)
    from harvest_empty[OF _ assms this] a
    show "fst (harvest_external_data t path w) = Inl ZeroDivisionError" by simp
  qed
  show "files (snd (harvest_external_data t path w)) (path @ ''.log'') = files w (path @ ''.log'')
          \<or> files (snd (harvest_external_data t path w)) (path @ ''.log'') = Some []"
    using assms
    by (auto simp: harvest_external_data_def open_r_def open_w_def fwrite_def print_def Let_def
          recovered_percent_zero split: sum.splits option.splits)
qed

theorem empty_input_raises_witness:
  "files hydrate_world ''r/s/b.csv_retweets'' = Some []
   \<and> recovered_percent 0 0 = Inl ZeroDivisionError
   \<and> fst (harvest_external_data demo_twarc ''r/s/b.csv_retweets'' hydrate_world)
       = Inl ZeroDivisionError"
proof -
  have h: "files hydrate_world ''r/s/b.csv_retweets'' = Some []"
    by (simp add: hydrate_world_def)
  from empty_input_raises[OF h, of 0 demo_twarc]
  have "recovered_percent 0 0 = Inl ZeroDivisionError
      \<and> fst (harvest_external_data demo_twarc ''r/s/b.csv_retweets'' hydrate_world)
          = Inl ZeroDivisionError"
    by (simp add: demo_twarc_def hydrate_world_def)
  then show ?thesis
    using h by simp
qed

subsection \<open>The rounding of the percentage\<close>

lemma pow2_powi: "pow2 e = 2 powi e"
  by (simp add: pow2_def power_int_def field_simps)

lemma pow2_pos: "0 < pow2 e"
  by (simp add: pow2_powi)

lemma pow2_add: "pow2 (a + b) = pow2 a * pow2 b"
  by (simp add: pow2_powi power_int_add)

lemma pow2_mono: "a \<le> b \<Longrightarrow> pow2 a \<le> pow2 b"
  by (simp add: pow2_powi power_int_increasing)

lemma bit_length_bounds:
  "0 < n \<Longrightarrow> 1 \<le> bit_length n \<and> 2 ^ nat (bit_length n - 1) \<le> n \<and> n < 2 ^ nat (bit_length n)"
proof (induction n rule: bit_length.induct)
  case (1 n)
  show ?case
  proof (cases "n div 2 \<le> 0")
    case True
    with "1.prems" have "n = 1" by linarith
    then show ?thesis
      by (simp add: bit_length.simps[of 1] bit_length.simps[of 0])
  next
    case False
    then have pos: "0 < n div 2" by simp
    from "1.IH"[OF _ pos] "1.prems"
    have ih: "1 \<le> bit_length (n div 2)"
      "2 ^ nat (bit_length (n div 2) - 1) \<le> n div 2"
      "n div 2 < 2 ^ nat (bit_length (n div 2))"
      by auto
    have bl: "bit_length n = 1 + bit_length (n div 2)"
      using "1.prems" by (simp add: bit_length.simps[of n])
    define b where "b = bit_length (n div 2)"
    have e1: "nat (1 + b - 1) = Suc (nat (b - 1))" using ih(1) by (simp add: b_def nat_diff_distrib)
    have e2: "nat (1 + b) = Suc (nat b)" using ih(1) by (simp add: b_def)
    have e3: "nat b = Suc (nat (b - 1))" using ih(1) by (simp add: b_def)
    have e4: "(2::int) ^ nat b = 2 * 2 ^ nat (b - 1)" by (subst e3) simp
    have "2 * (n div 2) \<le> n" "n < 2 * (n div 2) + 2" by linarith+
    then show ?thesis
      using ih e4 unfolding bl b_def[symmetric] by (simp add: e1 e2)
  qed
qed

lemma round_half_even_cases:
  obtains f d where "q = of_int f + d" "0 \<le> d" "d < 1"
    "round_half_even q = (if d < 1 / 2 then f else if d > 1 / 2 then f + 1
                          else if even f then f else f + 1)"
proof -
  define f where "f = \<lfloor>q\<rfloor>"
  define d where "d = q - of_int f"
  have "0 \<le> d" "d < 1" unfolding d_def f_def by linarith+
  moreover have "q = of_int f + d" by (simp add: d_def)
  moreover have "round_half_even q = (if d < 1 / 2 then f else if d > 1 / 2 then f + 1
                          else if even f then f else f + 1)"
    by (simp add: round_half_even_def Let_def f_def d_def)
  ultimately show ?thesis using that by blast
qed

lemma round_half_even_bound: "\<bar>of_int (round_half_even q) - q\<bar> \<le> 1 / 2"
proof -
  obtain f d where *: "q = of_int f + d" "0 \<le> d" "d < 1"
    "round_half_even q = (if d < 1 / 2 then f else if d > 1 / 2 then f + 1
                          else if even f then f else f + 1)"
    by (rule round_half_even_cases)
  show ?thesis
    unfolding *(4) using *(1,2,3) by (auto simp: abs_if)
qed

lemma round_half_even_tie:
  assumes "\<bar>of_int (round_half_even q) - q\<bar> = 1 / 2"
  shows "even (round_half_even q)"
proof -
  obtain f d where *: "q = of_int f + d" "0 \<le> d" "d < 1"
    "round_half_even q = (if d < 1 / 2 then f else if d > 1 / 2 then f + 1
                          else if even f then f else f + 1)"
    by (rule round_half_even_cases)
  show ?thesis
    using assms *(1,2,3) unfolding *(4) by (auto simp: abs_if split: if_splits)
qed


lemma pow2_of_int_power: "0 \<le> k \<Longrightarrow> pow2 k = of_int (2 ^ nat k)"
  by (simp add: pow2_def)

lemma ilog2_bounds:
  assumes "0 < q"
  shows "pow2 (ilog2 q) \<le> q \<and> q < pow2 (ilog2 q + 1)"
proof -
  obtain a b where ab: "quotient_of q = (a, b)" by (cases "quotient_of q")
  have b: "0 < b" using quotient_of_denom_pos[OF ab] .
  have q: "q = of_int a / of_int b" using quotient_of_div[OF ab] .
  have a: "0 < a" using assms b unfolding q by (simp add: zero_less_divide_iff)
  define la where "la = bit_length a"
  define lb where "lb = bit_length b"
  define k where "k = la - lb"
  from bit_length_bounds[OF a] have la: "1 \<le> la" "2 ^ nat (la - 1) \<le> a" "a < 2 ^ nat la"
    by (simp_all add: la_def)
  from bit_length_bounds[OF b] have lb: "1 \<le> lb" "2 ^ nat (lb - 1) \<le> b" "b < 2 ^ nat lb"
    by (simp_all add: lb_def)
  have A1: "pow2 (la - 1) \<le> of_int a"
    using la(1,2) by (simp add: pow2_of_int_power del: of_int_power)
  have A2: "of_int a < pow2 la"
    using la(1,3) by (simp add: pow2_of_int_power del: of_int_power)
  have B1: "pow2 (lb - 1) \<le> of_int b"
    using lb(1,2) by (simp add: pow2_of_int_power del: of_int_power)
  have B2: "of_int b < pow2 lb"
    using lb(1,3) by (simp add: pow2_of_int_power del: of_int_power)
  have bpos: "(0::rat) < of_int b" using b by simp
  have "of_int a < pow2 (k + 1) * pow2 (lb - 1)"
    using A2 by (simp add: pow2_add[symmetric] k_def)
  also have "\<dots> \<le> pow2 (k + 1) * of_int b"
    using B1 pow2_pos[of "k + 1"] by (simp add: mult_left_mono)
  finally have upper: "q < pow2 (k + 1)"
    unfolding q using bpos by (simp add: pos_divide_less_eq)
  have "pow2 (k - 1) * of_int b < pow2 (k - 1) * pow2 lb"
    using B2 pow2_pos[of "k - 1"] by (simp add: mult_strict_left_mono)
  also have "\<dots> = pow2 (la - 1)"
    by (simp add: pow2_add[symmetric] k_def)
  also have "\<dots> \<le> of_int a" by (rule A1)
  finally have lower: "pow2 (k - 1) < q"
    unfolding q using bpos by (simp add: pos_less_divide_eq)
  have il: "ilog2 q = (if pow2 k \<le> q then k else k - 1)"
    by (simp add: ilog2_def ab Let_def k_def la_def lb_def)
  show ?thesis
    using upper lower unfolding il by auto
qed

lemma fl_error: "\<bar>fl q - q\<bar> \<le> \<bar>q\<bar> * pow2 (- 53) + pow2 (- 1075)"
proof (cases "q = 0")
  case True
  then show ?thesis using pow2_pos[of "- 1075"] by (simp add: fl_def)
next
  case False
  define k where "k = ilog2 \<bar>q\<bar>"
  define e where "e = max (k - 52) (- 1074)"
  define y where "y = q / pow2 e"
  have pe: "0 < pow2 e" by (rule pow2_pos)
  have qy: "q = y * pow2 e" using pe by (simp add: y_def)
  have flq: "fl q = of_int (round_half_even y) * pow2 e"
    using False by (simp add: fl_def Let_def k_def e_def y_def)
  have "\<bar>fl q - q\<bar> = \<bar>of_int (round_half_even y) - y\<bar> * pow2 e"
    unfolding flq using pe by (subst qy) (simp add: abs_mult left_diff_distrib[symmetric])
  also have "\<dots> \<le> (1 / 2) * pow2 e"
    using round_half_even_bound[of y] pe by (simp add: mult_right_mono)
  also have "\<dots> = pow2 (e - 1)"
    using pow2_add[of e "- 1"] by (simp add: pow2_def)
  finally have err: "\<bar>fl q - q\<bar> \<le> pow2 (e - 1)" .
  from False have "0 < \<bar>q\<bar>" by simp
  from ilog2_bounds[OF this] have kq: "pow2 k \<le> \<bar>q\<bar>" by (simp add: k_def)
  show ?thesis
  proof (cases "k - 52 \<ge> - 1074")
    case True
    then have "e - 1 = k + (- 53)" by (simp add: e_def)
    then have "pow2 (e - 1) = pow2 (k + (- 53))" by (rule arg_cong)
    also have "\<dots> = pow2 k * pow2 (- 53)" by (rule pow2_add)
    also have "\<dots> \<le> \<bar>q\<bar> * pow2 (- 53)"
      using kq pow2_pos[of "- 53"] by (simp add: mult_right_mono)
    finally show ?thesis using err pow2_pos[of "- 1075"] by linarith
  next
    case False
    then have "e - 1 = - 1075" by (simp add: e_def)
    with err have "\<bar>fl q - q\<bar> \<le> pow2 (- 1075)" by simp
    moreover have "0 \<le> \<bar>q\<bar> * pow2 (- 53)"
      using pow2_pos[of "- 53"] by (simp add: less_imp_le)
    ultimately show ?thesis by linarith
  qed
qed


lemma pow2_m53: "pow2 (- 53) = 1 / 2 ^ 53"
  by (simp add: pow2_def)

lemma pow2_m1075_le: "pow2 (- 1075) \<le> pow2 (- 53)"
  by (rule pow2_mono) simp

lemma pow2_1024_ge: "256 \<le> pow2 1024"
proof -
  have "pow2 8 \<le> pow2 1024" by (rule pow2_mono) simp
  then show ?thesis by (simp add: pow2_def)
qed

lemma fl_error': "\<bar>fl q - q\<bar> \<le> (\<bar>q\<bar> + 1) * (1 / 2 ^ 53)"
proof -
  have "\<bar>fl q - q\<bar> \<le> \<bar>q\<bar> * pow2 (- 53) + pow2 (- 53)"
    using fl_error[of q] pow2_m1075_le by linarith
  then show ?thesis by (simp add: pow2_m53 algebra_simps)
qed

lemma recovered_percent_structure:
  assumes "recovered_percent c n = Inr (Float p)"
  shows "n \<noteq> 0 \<and>
         (\<exists>k. p = fl (of_int k / 100) \<and>
              \<bar>of_int k - fl (fl (of_nat c / of_nat n) * 100) * 100\<bar> \<le> 1 / 2 \<and>
              (\<bar>of_int k - fl (fl (of_nat c / of_nat n) * 100) * 100\<bar> = 1 / 2 \<longrightarrow> even k))"
proof -
  define x where "x = fl (fl (of_nat c / of_nat n) * 100)"
  from assms have n: "n \<noteq> 0"
    and p: "p = fl (of_int (round_half_even (x * 100)) / 100)"
    by (auto simp: recovered_percent_def true_div_def float_mul_def round_ndigits2_def Let_def x_def
          split: if_splits sum.splits pyfloat.splits)
  show ?thesis
    using n p round_half_even_bound[of "x * 100"] round_half_even_tie[of "x * 100"]
    unfolding x_def[symmetric] by blast
qed

lemma recovered_percent_accuracy:
  assumes "0 < n" "c \<le> n"
  shows "\<exists>p. recovered_percent c n = Inr (Float p) \<and>
             \<bar>p - 100 * of_nat c / of_nat n\<bar> \<le> 1 / 200 + 1 / 2 ^ 43"
proof -
  define u :: rat where "u = 1 / 2 ^ 53"
  define q :: rat where "q = of_nat c / of_nat n"
  define x1 where "x1 = fl q"
  define x2 where "x2 = fl (x1 * 100)"
  define k where "k = round_half_even (x2 * 100)"
  define p where "p = fl (of_int k / 100)"
  have u: "0 < u" "u \<le> 1 / 1000000" by (simp_all add: u_def)
  have q: "0 \<le> q" "q \<le> 1" using assms by (simp_all add: q_def)
  have e1: "\<bar>x1 - q\<bar> \<le> 2 * u"
  proof -
    have "\<bar>x1 - q\<bar> \<le> (\<bar>q\<bar> + 1) * u" unfolding x1_def u_def by (rule fl_error')
    also have "\<dots> \<le> 2 * u" using q u by (simp add: mult_right_mono)
    finally show ?thesis .
  qed
  then have b1: "\<bar>x1\<bar> \<le> 2" using q u by linarith
  have e2: "\<bar>x2 - x1 * 100\<bar> \<le> 201 * u"
  proof -
    have "\<bar>x2 - x1 * 100\<bar> \<le> (\<bar>x1 * 100\<bar> + 1) * u" unfolding x2_def u_def by (rule fl_error')
    also have "\<dots> \<le> 201 * u" using b1 u by (simp add: mult_right_mono abs_mult)
    finally show ?thesis .
  qed
  then have b2: "\<bar>x2\<bar> \<le> 201" using b1 u by linarith
  have e3: "\<bar>of_int k - x2 * 100\<bar> \<le> 1 / 2" unfolding k_def by (rule round_half_even_bound)
  then have e3': "\<bar>of_int k / 100 - x2\<bar> \<le> 1 / 200" by linarith
  then have b3: "\<bar>of_int k / 100 :: rat\<bar> \<le> 202" using b2 by linarith
  have e4: "\<bar>p - of_int k / 100\<bar> \<le> 203 * u"
  proof -
    have "\<bar>p - of_int k / 100\<bar> \<le> (\<bar>of_int k / 100\<bar> + 1) * u"
      unfolding p_def u_def by (rule fl_error')
    also have "\<dots> \<le> 203 * u" using b3 u by (simp add: mult_right_mono)
    finally show ?thesis .
  qed
  have "\<bar>p - 100 * q\<bar> \<le> 1 / 200 + 604 * u"
    using e1 e2 e3' e4 by linarith
  also have "\<dots> \<le> 1 / 200 + 1 / 2 ^ 43" by (simp add: u_def)
  finally have acc: "\<bar>p - 100 * of_nat c / of_nat n\<bar> \<le> 1 / 200 + 1 / 2 ^ 43"
    by (simp add: q_def)
  have "\<not> pow2 1024 \<le> x1" using b1 pow2_1024_ge by linarith
  then have t: "true_div c n = Inr (Float x1)"
    using assms(1) by (simp add: true_div_def Let_def x1_def q_def)
  have "\<not> pow2 1024 \<le> \<bar>x2\<bar>" using b2 pow2_1024_ge by linarith
  then have m: "float_mul (Float x1) 100 = Float x2"
    by (simp add: float_mul_def Let_def x2_def)
  have "recovered_percent c n = Inr (Float p)"
    by (simp add: recovered_percent_def t m round_ndigits2_def p_def k_def)
  with acc show ?thesis by blast
qed

lemma fl_1_3: "fl (1 / 3) = 6004799503160661 / 18014398509481984"
  by code_simp

lemma fl_1_3_finite: "\<not> pow2 1024 \<le> 6004799503160661 / 18014398509481984"
  by code_simp

lemma fl_33: "fl (6004799503160661 / 18014398509481984 * 100) = 2345624805922133 / 70368744177664"
  by code_simp

lemma fl_33_finite: "\<not> pow2 1024 \<le> \<bar>2345624805922133 / 70368744177664\<bar>"
  by code_simp

lemma round_33:
  "round_half_even (2345624805922133 / 70368744177664 * 100) = 3333"
  by code_simp

lemma fl_3333: "fl (3333 / 100) = 2345390243441541 / 70368744177664"
  by code_simp

lemma recovered_percent_1_3: "recovered_percent 1 3 = Inr (Float (fl (3333 / 100)))"
proof -
  have "true_div 1 3 = Inr (Float (6004799503160661 / 18014398509481984))"
    unfolding true_div_def Let_def using fl_1_3 fl_1_3_finite by simp
  moreover have "float_mul (Float (6004799503160661 / 18014398509481984)) 100
                   = Float (2345624805922133 / 70368744177664)"
    unfolding float_mul_def Let_def pyfloat.case fl_33 using fl_33_finite by simp
  moreover have "round_ndigits2 (Float (2345624805922133 / 70368744177664))
                   = Float (fl (3333 / 100))"
    unfolding round_ndigits2_def pyfloat.case round_33 by simp
  ultimately show ?thesis
    by (simp add: recovered_percent_def)
qed

lemma unrounded_1_3: "fl (fl (1 / 3) * 100) \<noteq> fl (3333 / 100)"
  unfolding fl_1_3 fl_33 fl_3333 by simp

text \<open>
  C5. The percentage is the float product \<open>collected/num_lines*100\<close> rounded to two
  decimals: whenever it is a finite float, it is the float nearest to \<open>k/100\<close> for
  the integer \<open>k\<close> nearest to a hundred times that product (ties to the even \<open>k\<close>).
  When no more is collected than was requested it is a finite float within
  \<open>0.005 + 2^-43\<close> of the exact percentage. For 7 of 10 it is exactly 70.0, and for
  1 of 3 it is 33.33, which the product before rounding (33.33333333333333) is not.
  A run whose connection, \<open>open\<close> calls and stream succeed completes and leaves the
  one-line report holding the number of lines, the number of records and that
  percentage: for ten lines and seven records, \<open>Total: 10, collected 7, recovered %:
  70.0\<close>.
\<close>

theorem percentage_rounded_to_two_decimals:
  "(recovered_percent c n = Inr (Float p) \<longrightarrow>
      n \<noteq> 0 \<and>
      (\<exists>k. p = fl (of_int k / 100) \<and>
           \<bar>of_int k - fl (fl (of_nat c / of_nat n) * 100) * 100\<bar> \<le> 1 / 2 \<and>
           (\<bar>of_int k - fl (fl (of_nat c / of_nat n) * 100) * 100\<bar> = 1 / 2 \<longrightarrow> even k)))
   \<and> (0 < n \<and> c \<le> n \<longrightarrow>
        (\<exists>p. recovered_percent c n = Inr (Float p) \<and>
             \<bar>p - 100 * of_nat c / of_nat n\<bar> \<le> 1 / 200 + 1 / 2 ^ 43))
   \<and> recovered_percent 7 10 = Inr (Float 70)
   \<and> recovered_percent 1 3 = Inr (Float (fl (3333 / 100)))
   \<and> fl (fl (1 / 3) * 100) \<noteq> fl (3333 / 100)
   \<and> (files w path = Some ls \<and> connect t = None \<and> hydrate t ls = (tweets, None) \<and>
        path @ ''.jsonl'' \<notin> readonly w \<and> path @ ''.log'' \<notin> readonly w \<longrightarrow>
        (\<forall>pct. recovered_percent (length tweets) (length ls) = Inr pct \<longrightarrow>
           fst (harvest_external_data t path w) = Inr PyNone \<and>
           files (snd (harvest_external_data t path w)) (path @ ''.log'')
             = Some [Summary (length ls) (length tweets) pct])
        \<and> (length ls = 10 \<and> length tweets = 7 \<longrightarrow>
             fst (harvest_external_data t path w) = Inr PyNone \<and>
             files (snd (harvest_external_data t path w)) (path @ ''.log'')
               = Some [Summary 10 7 (Float 70)]))"
proof (intro conjI impI)
  assume "recovered_percent c n = Inr (Float p)"
  from recovered_percent_structure[OF this]
  show "n \<noteq> 0"
    and "\<exists>k. p = fl (of_int k / 100) \<and>
           \<bar>of_int k - fl (fl (of_nat c / of_nat n) * 100) * 100\<bar> \<le> 1 / 2 \<and>
           (\<bar>of_int k - fl (fl (of_nat c / of_nat n) * 100) * 100\<bar> = 1 / 2 \<longrightarrow> even k)"
    by blast+
next
  assume "0 < n \<and> c \<le> n"
  then show "\<exists>p. recovered_percent c n = Inr (Float p) \<and>
             \<bar>p - 100 * of_nat c / of_nat n\<bar> \<le> 1 / 200 + 1 / 2 ^ 43"
    using recovered_percent_accuracy[of n c] by blast
next
  show "recovered_percent 7 10 = Inr (Float 70)" by (rule recovered_percent_7_10)
next
  show "recovered_percent 1 3 = Inr (Float (fl (3333 / 100)))" by (rule recovered_percent_1_3)
next
  show "fl (fl (1 / 3) * 100) \<noteq> fl (3333 / 100)" by (rule unrounded_1_3)
next
  assume a: "files w path = Some ls \<and> connect t = None \<and> hydrate t ls = (tweets, None) \<and>
        path @ ''.jsonl'' \<notin> readonly w \<and> path @ ''.log'' \<notin> readonly w"
  then have run: "harvest_external_data t path w =
         (case recovered_percent (length tweets) (length ls) of
            Inl e \<Rightarrow> (Inl e, harvest_files_after path tweets [] w)
          | Inr pct \<Rightarrow>
              (Inr PyNone,
               harvest_files_after path tweets [Summary (length ls) (length tweets) pct] w))"
    by (intro harvest_run) simp_all
  show "\<forall>pct. recovered_percent (length tweets) (length ls) = Inr pct \<longrightarrow>
           fst (harvest_external_data t path w) = Inr PyNone \<and>
           files (snd (harvest_external_data t path w)) (path @ ''.log'')
             = Some [Summary (length ls) (length tweets) pct]"
    unfolding run by (simp add: log_after)
  {
    assume "length ls = 10 \<and> length tweets = 7"
    then show "fst (harvest_external_data t path w) = Inr PyNone"
      and "files (snd (harvest_external_data t path w)) (path @ ''.log'')
               = Some [Summary 10 7 (Float 70)]"
      unfolding run by (simp_all add: recovered_percent_7_10 log_after)
  }
qed

theorem percentage_rounded_to_two_decimals_witness:
  "files hydrate_world ''r/s/a.csv_retweets'' = Some ten_ids \<and> length ten_ids = 10
   \<and> hydrate demo_twarc ten_ids = (seven_tweets, None) \<and> length seven_tweets = 7
   \<and> recovered_percent 7 10 = Inr (Float 70)
   \<and> (\<exists>k. (70::rat) = fl (of_int k / 100) \<and>
           \<bar>of_int k - fl (fl (of_nat 7 / of_nat 10) * 100) * 100\<bar> \<le> 1 / 2)
   \<and> (\<exists>p. recovered_percent 7 10 = Inr (Float p) \<and>
           \<bar>p - 100 * of_nat 7 / of_nat 10\<bar> \<le> 1 / 200 + 1 / 2 ^ 43)
   \<and> fst (harvest_external_data demo_twarc ''r/s/a.csv_retweets'' hydrate_world) = Inr PyNone
   \<and> files (snd (harvest_external_data demo_twarc ''r/s/a.csv_retweets'' hydrate_world))
        (''r/s/a.csv_retweets'' @ ''.log'') = Some [Summary 10 7 (Float 70)]"
proof -
  have 1: "files hydrate_world ''r/s/a.csv_retweets'' = Some ten_ids"
    by (simp add: hydrate_world_def)
  have 2: "length ten_ids = 10" by (simp add: ten_ids_def)
  have 3: "connect demo_twarc = None" by (simp add: demo_twarc_def)
  have 5: "length seven_tweets = 7" by (simp add: seven_tweets_def)
  have 6: "''r/s/a.csv_retweets'' @ ''.jsonl'' \<notin> readonly hydrate_world"
    and 7: "''r/s/a.csv_retweets'' @ ''.log'' \<notin> readonly hydrate_world"
    by (simp_all add: hydrate_world_def)
  have 8: "(0::nat) < 10 \<and> (7::nat) \<le> 10" by simp
  note t = percentage_rounded_to_two_decimals[of 7 10 70 hydrate_world "''r/s/a.csv_retweets''"
             ten_ids demo_twarc seven_tweets]
  from t have p: "recovered_percent 7 10 = Inr (Float 70)" by blast
  from t p have k: "\<exists>k. (70::rat) = fl (of_int k / 100) \<and>
           \<bar>of_int k - fl (fl (of_nat 7 / of_nat 10) * 100) * 100\<bar> \<le> 1 / 2"
    by blast
  from t 8 have acc: "\<exists>p. recovered_percent 7 10 = Inr (Float p) \<and>
           \<bar>p - 100 * of_nat 7 / of_nat 10\<bar> \<le> 1 / 200 + 1 / 2 ^ 43"
    by blast
  from t 1 2 3 5 6 7 demo_hydrate_ten
  have run: "fst (harvest_external_data demo_twarc ''r/s/a.csv_retweets'' hydrate_world) = Inr PyNone
     \<and> files (snd (harvest_external_data demo_twarc ''r/s/a.csv_retweets'' hydrate_world))
        (''r/s/a.csv_retweets'' @ ''.log'') = Some [Summary 10 7 (Float 70)]"
    by blast
  from 1 2 5 demo_hydrate_ten p k acc run show ?thesis by blast
qed

text \<open>
  C8, as the code has it. The Hydrator hands no report to its caller: a call that
  completes returns \<open>None\<close>. The three figures exist only as the one line of the report
  file, next to the file of the records; no call returns a report value.
\<close>

theorem hydrator_returns_none:
  "(\<forall>n c p. fst (harvest_external_data t path w) \<noteq> Inr (PyReport n c p))
   \<and> (harvest_external_data t path w = (Inr v, w') \<longrightarrow>
        v = PyNone \<and>
        (\<exists>ls pct. files w path = Some ls
           \<and> recovered_percent (length (fst (hydrate t ls))) (length ls) = Inr pct
           \<and> files w' (path @ ''.jsonl'') = Some (map Text (fst (hydrate t ls)))
           \<and> files w' (path @ ''.log'')
               = Some [Summary (length ls) (length (fst (hydrate t ls))) pct]))"
proof
  show "\<forall>n c p. fst (harvest_external_data t path w) \<noteq> Inr (PyReport n c p)"
  proof (intro allI notI)
    fix n c p assume "fst (harvest_external_data t path w) = Inr (PyReport n c p)"
    then have "harvest_external_data t path w
                 = (Inr (PyReport n c p), snd (harvest_external_data t path w))"
      by (metis prod.collapse)
    from harvest_Inr[OF this] show False by simp
  qed
  show "harvest_external_data t path w = (Inr v, w') \<longrightarrow>
        v = PyNone \<and>
        (\<exists>ls pct. files w path = Some ls
           \<and> recovered_percent (length (fst (hydrate t ls))) (length ls) = Inr pct
           \<and> files w' (path @ ''.jsonl'') = Some (map Text (fst (hydrate t ls)))
           \<and> files w' (path @ ''.log'')
               = Some [Summary (length ls) (length (fst (hydrate t ls))) pct])"
  proof
    assume "harvest_external_data t path w = (Inr v, w')"
    from harvest_Inr[OF this] show "v = PyNone \<and>
        (\<exists>ls pct. files w path = Some ls
           \<and> recovered_percent (length (fst (hydrate t ls))) (length ls) = Inr pct
           \<and> files w' (path @ ''.jsonl'') = Some (map Text (fst (hydrate t ls)))
           \<and> files w' (path @ ''.log'')
               = Some [Summary (length ls) (length (fst (hydrate t ls))) pct])"
      by (auto simp: log_after jsonl_after)
  qed
qed

theorem hydrator_returns_none_witness:
  "harvest_external_data demo_twarc ''r/s/a.csv_retweets'' hydrate_world
     = (Inr PyNone,
        harvest_files_after ''r/s/a.csv_retweets'' seven_tweets [Summary 10 7 (Float 70)]
          hydrate_world)
   \<and> (\<exists>ls pct. files hydrate_world ''r/s/a.csv_retweets'' = Some ls
         \<and> recovered_percent (length (fst (hydrate demo_twarc ls))) (length ls) = Inr pct
         \<and> files (harvest_files_after ''r/s/a.csv_retweets'' seven_tweets
                    [Summary 10 7 (Float 70)] hydrate_world) (''r/s/a.csv_retweets'' @ ''.log'')
             = Some [Summary (length ls) (length (fst (hydrate demo_twarc ls))) pct])"
  using hydrator_returns_none[of demo_twarc "''r/s/a.csv_retweets''" hydrate_world PyNone
          "harvest_files_after ''r/s/a.csv_retweets'' seven_tweets [Summary 10 7 (Float 70)]
             hydrate_world"]
        demo_harvest_a
  by blast

theorem hydrator_returns_report_counterexample:
  "fst (harvest_external_data demo_twarc ''r/s/a.csv_retweets'' hydrate_world) = Inr PyNone
   \<and> fst (harvest_external_data demo_twarc ''r/s/a.csv_retweets'' hydrate_world)
       \<noteq> Inr (PyReport 10 7 (Float 70))"
  by (simp add: demo_harvest_a)

text \<open>
  C10, as the code has it. On an empty input file, with the connection and both
  \<open>open\<close> calls succeeding and a client that yields nothing for no identifiers, the
  call raises the division error after it has created (or truncated) both output
  files: the records file and the report file are both left on disk, both empty, and
  nothing else changes. The report file is opened for writing before the percentage
  is computed.
\<close>

theorem empty_input_leaves_two_empty_files:
  assumes "files w path = Some []" "connect t = None" "hydrate t [] = ([], None)"
    "path @ ''.jsonl'' \<notin> readonly w" "path @ ''.log'' \<notin> readonly w"
  shows "fst (harvest_external_data t path w) = Inl ZeroDivisionError
       \<and> files (snd (harvest_external_data t path w))
           = (files w)(path @ ''.jsonl'' \<mapsto> [], path @ ''.log'' \<mapsto> [])"
  unfolding harvest_empty[OF assms(2) assms(1) assms(3) assms(4) assms(5)]
  by (simp add: harvest_files_after_def)

theorem empty_input_leaves_two_empty_files_witness:
  "files hydrate_world ''r/s/b.csv_retweets'' = Some []
   \<and> fst (harvest_external_data demo_twarc ''r/s/b.csv_retweets'' hydrate_world)
       = Inl ZeroDivisionError
   \<and> files (snd (harvest_external_data demo_twarc ''r/s/b.csv_retweets'' hydrate_world))
       = (files hydrate_world)(''r/s/b.csv_retweets'' @ ''.jsonl'' \<mapsto> [],
                               ''r/s/b.csv_retweets'' @ ''.log'' \<mapsto> [])"
proof -
  have 1: "files hydrate_world ''r/s/b.csv_retweets'' = Some []"
    by (simp add: hydrate_world_def)
  have 2: "connect demo_twarc = None" and 3: "hydrate demo_twarc [] = ([], None)"
    by (simp_all add: demo_twarc_def)
  have 4: "''r/s/b.csv_retweets'' @ ''.jsonl'' \<notin> readonly hydrate_world"
    and 5: "''r/s/b.csv_retweets'' @ ''.log'' \<notin> readonly hydrate_world"
    by (simp_all add: hydrate_world_def)
  from empty_input_leaves_two_empty_files[OF 1 2 3 4 5] 1 show ?thesis by blast
qed

theorem empty_input_no_report_file_counterexample:
  "files hydrate_world ''r/s/b.csv_retweets'' = Some []
   \<and> files hydrate_world ''r/s/b.csv_retweets.log'' = None
   \<and> fst (harvest_external_data demo_twarc ''r/s/b.csv_retweets'' hydrate_world)
       = Inl ZeroDivisionError
   \<and> files (snd (harvest_external_data demo_twarc ''r/s/b.csv_retweets'' hydrate_world))
       ''r/s/b.csv_retweets.log'' = Some []"
  by (simp add: demo_harvest_b harvest_files_after_def) (simp add: hydrate_world_def)

section \<open>The Extractor as a whole\<close>

lemma path_join_suffix_inj:
  assumes "path_join a (b @ s) = path_join a (b @ s')" "take 1 s = take 1 s'" "s \<noteq> []" "s' \<noteq> []"
  shows "s = s'"
proof -
  have "take 1 (b @ s) = take 1 (b @ s')"
    using assms(2) by (cases b) auto
  with assms(1) show ?thesis
    by (auto simp: path_join_def split: if_splits)
qed

lemma outpath_distinct:
  "outpath p ''_retweets'' \<noteq> outpath p ''_replies''"
  "outpath p ''_retweets'' \<noteq> outpath p ''_quotes''"
  "outpath p ''_replies'' \<noteq> outpath p ''_quotes''"
  unfolding outpath_def
  using path_join_suffix_inj[of "fst (path_split p)" "snd (path_split p)"]
  by fastforce+

lemma externaltweets_Inr:
  assumes "externaltweets tokenize order path o1 o2 o3 w = (Inr v, w')"
  shows "v = PyNone \<and> (\<exists>ls s. files w path = Some ls \<and> read_ids (tokenize ls) = Inr s
           \<and> (o1 = None \<and> o2 = None \<and> o3 = None \<longrightarrow> w' = extract_files_after order path s w))"
  using assms
  by (auto simp: externaltweets_def extract_files_after_def outpath_def write_ids_def open_r_def
        open_w_def fwrite_def print_def Let_def
      split: sum.splits option.splits if_splits)

lemma externaltweets_run:
  assumes "files w path = Some ls" "read_ids (tokenize ls) = Inr s"
    "outpath path ''_retweets'' \<notin> readonly w" "outpath path ''_replies'' \<notin> readonly w"
    "outpath path ''_quotes'' \<notin> readonly w"
  shows "externaltweets tokenize order path None None None w
           = (Inr PyNone, extract_files_after order path s w)"
  using assms
  by (auto simp: externaltweets_def extract_files_after_def outpath_def write_ids_def open_r_def
        open_w_def fwrite_def print_def Let_def
      split: sum.splits option.splits if_splits)

lemma externaltweets_fail:
  assumes "files w path = Some ls" "read_ids (tokenize ls) = Inl e"
  shows "externaltweets tokenize order path o1 o2 o3 w = (Inl e, w)"
  using assms by (simp add: externaltweets_def open_r_def Let_def)

lemma extract_files_after_files:
  "files (extract_files_after order path s w) (outpath path ''_retweets'')
     = Some (map (\<lambda>msg. CsvRecord [msg]) (order (retweets s)))"
  "files (extract_files_after order path s w) (outpath path ''_replies'')
     = Some (map (\<lambda>msg. CsvRecord [msg]) (order (replies s)))"
  "files (extract_files_after order path s w) (outpath path ''_quotes'')
     = Some (map (\<lambda>msg. CsvRecord [msg]) (order (quotes s)))"
  using outpath_distinct[of path]
  by (simp_all add: extract_files_after_def)

lemma stdout_extract_files_after:
  "stdout (extract_files_after order path s w) =
     stdout w @ [Result (snd (path_split path)) (card (retweets s)) (card (replies s))
                   (card (quotes s))]"
  by (simp add: extract_files_after_def)

lemma readonly_extract_files_after [simp]:
  "readonly (extract_files_after order path s w) = readonly w"
  by (simp add: extract_files_after_def)

lemma demo_tokenize_a: "demo_tokenize (map CsvRecord demo_records) = (demo_records, None)"
  by (simp add: demo_tokenize_def demo_records_def is_record_def)

lemma demo_read_a: "read_ids (demo_tokenize (map CsvRecord demo_records)) = Inr demo_ids"
  by (simp add: demo_tokenize_a demo_scan)

lemma demo_read_b:
  "read_ids (demo_tokenize [CsvRecord [''tweetid''], CsvRecord [''1'']])
     = Inl (KeyError ''retweet_userid'')"
  by (simp add: demo_tokenize_def is_record_def read_ids_def DictReader_def DictReader_row_def
        dict_zip_def scan_row_def external_retweets_def field_def)

lemma demo_read_c: "read_ids (demo_tokenize [CsvRecord demo_header]) = Inr no_ids"
  by (simp add: demo_tokenize_def is_record_def read_ids_def DictReader_def)

lemma outpath_a:
  "outpath ''r/s/a_tweets.csv'' ''_retweets'' = ''r/s/a_tweets.csv_retweets''"
  "outpath ''r/s/a_tweets.csv'' ''_replies'' = ''r/s/a_tweets.csv_replies''"
  "outpath ''r/s/a_tweets.csv'' ''_quotes'' = ''r/s/a_tweets.csv_quotes''"
  by (simp_all add: outpath_def path_split_def path_join_def)

lemma outpath_c:
  "outpath ''r/s/c_tweets.csv'' ''_retweets'' = ''r/s/c_tweets.csv_retweets''"
  "outpath ''r/s/c_tweets.csv'' ''_replies'' = ''r/s/c_tweets.csv_replies''"
  "outpath ''r/s/c_tweets.csv'' ''_quotes'' = ''r/s/c_tweets.csv_quotes''"
  by (simp_all add: outpath_def path_split_def path_join_def)

lemma demo_extract_a:
  "externaltweets demo_tokenize sorted_list_of_set ''r/s/a_tweets.csv'' None None None extract_world
     = (Inr PyNone,
        extract_files_after sorted_list_of_set ''r/s/a_tweets.csv'' demo_ids extract_world)"
  by (rule externaltweets_run[where ls = "map CsvRecord demo_records"])
     (simp_all add: extract_world_def demo_read_a outpath_a)

text \<open>
  C6, as the code has it. The Extractor hands nothing to its caller: a call that
  completes returns \<open>None\<close>, whatever output paths it was given, and no call returns
  the sets. With the default paths, a call that completes has written the members of
  the three sets, one record each, to the three files named after the input, and has
  printed the three sizes.
\<close>

theorem extractor_returns_none:
  "(\<forall>a b c. fst (externaltweets tokenize order path o1 o2 o3 w) \<noteq> Inr (PyIdSets a b c))
   \<and> (externaltweets tokenize order path o1 o2 o3 w = (Inr v, w') \<longrightarrow> v = PyNone)
   \<and> (externaltweets tokenize order path None None None w = (Inr v, w') \<longrightarrow>
        (\<exists>ls s. files w path = Some ls \<and> read_ids (tokenize ls) = Inr s
           \<and> files w' (outpath path ''_retweets'')
               = Some (map (\<lambda>msg. CsvRecord [msg]) (order (retweets s)))
           \<and> files w' (outpath path ''_replies'')
               = Some (map (\<lambda>msg. CsvRecord [msg]) (order (replies s)))
           \<and> files w' (outpath path ''_quotes'')
               = Some (map (\<lambda>msg. CsvRecord [msg]) (order (quotes s)))
           \<and> stdout w' = stdout w @
               [Result (snd (path_split path)) (card (retweets s)) (card (replies s))
                  (card (quotes s))]))"
proof (intro conjI)
  show "\<forall>a b c. fst (externaltweets tokenize order path o1 o2 o3 w) \<noteq> Inr (PyIdSets a b c)"
  proof (intro allI notI)
    fix a b c
    assume "fst (externaltweets tokenize order path o1 o2 o3 w) = Inr (PyIdSets a b c)"
    then have "externaltweets tokenize order path o1 o2 o3 w
                 = (Inr (PyIdSets a b c), snd (externaltweets tokenize order path o1 o2 o3 w))"
      by (metis prod.collapse)
    from externaltweets_Inr[OF this] show False by simp
  qed
  show "externaltweets tokenize order path o1 o2 o3 w = (Inr v, w') \<longrightarrow> v = PyNone"
    using externaltweets_Inr by blast
  show "externaltweets tokenize order path None None None w = (Inr v, w') \<longrightarrow>
        (\<exists>ls s. files w path = Some ls \<and> read_ids (tokenize ls) = Inr s
           \<and> files w' (outpath path ''_retweets'')
               = Some (map (\<lambda>msg. CsvRecord [msg]) (order (retweets s)))
           \<and> files w' (outpath path ''_replies'')
               = Some (map (\<lambda>msg. CsvRecord [msg]) (order (replies s)))
           \<and> files w' (outpath path ''_quotes'')
               = Some (map (\<lambda>msg. CsvRecord [msg]) (order (quotes s)))
           \<and> stdout w' = stdout w @
               [Result (snd (path_split path)) (card (retweets s)) (card (replies s))
                  (card (quotes s))])"
  proof
    assume "externaltweets tokenize order path None None None w = (Inr v, w')"
    from externaltweets_Inr[OF this]
    obtain ls s where "files w path = Some ls" "read_ids (tokenize ls) = Inr s"
      "w' = extract_files_after order path s w"
      by blast
    then show "\<exists>ls s. files w path = Some ls \<and> read_ids (tokenize ls) = Inr s
           \<and> files w' (outpath path ''_retweets'')
               = Some (map (\<lambda>msg. CsvRecord [msg]) (order (retweets s)))
           \<and> files w' (outpath path ''_replies'')
               = Some (map (\<lambda>msg. CsvRecord [msg]) (order (replies s)))
           \<and> files w' (outpath path ''_quotes'')
               = Some (map (\<lambda>msg. CsvRecord [msg]) (order (quotes s)))
           \<and> stdout w' = stdout w @
               [Result (snd (path_split path)) (card (retweets s)) (card (replies s))
                  (card (quotes s))]"
      using extract_files_after_files[of order path s w] stdout_extract_files_after[of order path s w]
      by blast
  qed
qed

theorem extractor_returns_none_witness:
  "externaltweets demo_tokenize sorted_list_of_set ''r/s/a_tweets.csv'' None None None extract_world
     = (Inr PyNone,
        extract_files_after sorted_list_of_set ''r/s/a_tweets.csv'' demo_ids extract_world)
   \<and> (\<exists>ls s. files extract_world ''r/s/a_tweets.csv'' = Some ls
         \<and> read_ids (demo_tokenize ls) = Inr s
         \<and> files (extract_files_after sorted_list_of_set ''r/s/a_tweets.csv'' demo_ids extract_world)
              (outpath ''r/s/a_tweets.csv'' ''_retweets'')
             = Some (map (\<lambda>msg. CsvRecord [msg]) (sorted_list_of_set (retweets s))))"
  using extractor_returns_none[of demo_tokenize sorted_list_of_set "''r/s/a_tweets.csv''"
          None None None extract_world PyNone
          "extract_files_after sorted_list_of_set ''r/s/a_tweets.csv'' demo_ids extract_world"]
        demo_extract_a
  by blast

theorem extractor_returns_sets_counterexample:
  "read_ids (demo_tokenize (map CsvRecord demo_records))
     = Inr \<lparr>retweets = {''111''}, replies = {''222''}, quotes = {''333''}\<rparr>
   \<and> fst (externaltweets demo_tokenize sorted_list_of_set ''r/s/a_tweets.csv'' None None None
            extract_world) = Inr PyNone
   \<and> fst (externaltweets demo_tokenize sorted_list_of_set ''r/s/a_tweets.csv'' None None None
            extract_world) \<noteq> Inr (PyIdSets {''111''} {''222''} {''333''})"
  by (simp add: demo_extract_a demo_read_a) (simp add: demo_ids_def)

section \<open>The directory walkers\<close>

lemma getfiles_files_append:
  "getfiles_files m (xs @ ys) (ps, w) = getfiles_files m ys (getfiles_files m xs (ps, w))"
  by (induction xs arbitrary: ps w) (auto split: prod.splits sum.splits)

lemma harvestfiles_files_append:
  "harvestfiles_files t (xs @ ys) (ps, w)
     = harvestfiles_files t ys (harvestfiles_files t xs (ps, w))"
  by (induction xs arbitrary: ps w) (auto split: prod.splits sum.splits)

lemma getfiles_files_single:
  "fst (getfiles_files m [x] (ps, w)) =
     (if isl (fst (m x (print (Text (''working on:  '' @ x)) w))) then ps @ [x] else ps)"
  by (auto split: prod.splits sum.splits)

lemma harvestfiles_files_single:
  "fst (harvestfiles_files t [x] (ps, w)) =
     (if isl (fst (harvest_external_data t x (print (Text (''working on:  '' @ x)) w)))
      then ps @ [x] else ps)"
  by (auto split: prod.splits sum.splits)

text \<open>
  The list \<open>problems\<close> after the loop: the paths, in order, of the files whose call
  raised, each call made on the machine that the files before it left.
\<close>

lemma getfiles_files_problems:
  "fst (getfiles_files m fs (ps, w)) =
     ps @ map ((!) fs)
       (filter (\<lambda>i. isl (fst (m (fs ! i) (print (Text (''working on:  '' @ fs ! i))
                                 (snd (getfiles_files m (take i fs) (ps, w)))))))
          [0..<length fs])"
proof -
  define P where "P = (\<lambda>fs i. isl (fst (m (fs ! i) (print (Text (''working on:  '' @ fs ! i))
                                 (snd (getfiles_files m (take i fs) (ps, w)))))))"
  have "fst (getfiles_files m fs (ps, w)) = ps @ map ((!) fs) (filter (P fs) [0..<length fs])"
  proof (induction fs rule: rev_induct)
    case Nil
    then show ?case by simp
  next
    case (snoc x xs)
    obtain ps1 w1 where st: "getfiles_files m xs (ps, w) = (ps1, w1)"
      by (cases "getfiles_files m xs (ps, w)")
    have old: "filter (P (xs @ [x])) [0..<length xs] = filter (P xs) [0..<length xs]"
      by (rule filter_cong) (auto simp: P_def nth_append)
    have same: "map ((!) (xs @ [x])) (filter Q [0..<length xs])
                  = map ((!) xs) (filter Q [0..<length xs])" for Q
      by (rule map_cong) (auto simp: nth_append)
    have final: "P (xs @ [x]) (length xs)
                  = isl (fst (m x (print (Text (''working on:  '' @ x)) w1)))"
      by (simp add: P_def st)
    have "fst (getfiles_files m (xs @ [x]) (ps, w))
            = (if P (xs @ [x]) (length xs) then ps1 @ [x] else ps1)"
      unfolding getfiles_files_append st getfiles_files_single final ..
    moreover have "ps1 = ps @ map ((!) xs) (filter (P xs) [0..<length xs])"
      using snoc.IH st by simp
    ultimately show ?case
      by (simp add: old same)
  qed
  then show ?thesis by (simp add: P_def)
qed

lemma harvestfiles_files_problems:
  "fst (harvestfiles_files t fs (ps, w)) =
     ps @ map ((!) fs)
       (filter (\<lambda>i. isl (fst (harvest_external_data t (fs ! i)
                                 (print (Text (''working on:  '' @ fs ! i))
                                    (snd (harvestfiles_files t (take i fs) (ps, w)))))))
          [0..<length fs])"
proof -
  define P where "P = (\<lambda>fs i. isl (fst (harvest_external_data t (fs ! i)
                                 (print (Text (''working on:  '' @ fs ! i))
                                    (snd (harvestfiles_files t (take i fs) (ps, w)))))))"
  have "fst (harvestfiles_files t fs (ps, w)) = ps @ map ((!) fs) (filter (P fs) [0..<length fs])"
  proof (induction fs rule: rev_induct)
    case Nil
    then show ?case by simp
  next
    case (snoc x xs)
    obtain ps1 w1 where st: "harvestfiles_files t xs (ps, w) = (ps1, w1)"
      by (cases "harvestfiles_files t xs (ps, w)")
    have old: "filter (P (xs @ [x])) [0..<length xs] = filter (P xs) [0..<length xs]"
      by (rule filter_cong) (auto simp: P_def nth_append)
    have same: "map ((!) (xs @ [x])) (filter Q [0..<length xs])
                  = map ((!) xs) (filter Q [0..<length xs])" for Q
      by (rule map_cong) (auto simp: nth_append)
    have final: "P (xs @ [x]) (length xs)
                  = isl (fst (harvest_external_data t x (print (Text (''working on:  '' @ x)) w1)))"
      by (simp add: P_def st)
    have "fst (harvestfiles_files t (xs @ [x]) (ps, w))
            = (if P (xs @ [x]) (length xs) then ps1 @ [x] else ps1)"
      unfolding harvestfiles_files_append st harvestfiles_files_single final ..
    moreover have "ps1 = ps @ map ((!) xs) (filter (P xs) [0..<length xs])"
      using snoc.IH st by simp
    ultimately show ?case
      by (simp add: old same)
  qed
  then show ?thesis by (simp add: P_def)
qed

lemma getfiles_files_continue:
  "getfiles_files m (xs @ f # ys) (ps, w) =
     (case getfiles_files m xs (ps, w) of
        (ps1, w1) \<Rightarrow>
          (case m f (print (Text (''working on:  '' @ f)) w1) of
             (Inr v, w2) \<Rightarrow> getfiles_files m ys (ps1, w2)
           | (Inl e, w2) \<Rightarrow>
               getfiles_files m ys (ps1 @ [f], print (Text (''problem with '' @ f)) w2)))"
  unfolding getfiles_files_append by (simp split: prod.splits)

lemma harvestfiles_files_continue:
  "harvestfiles_files t (xs @ f # ys) (ps, w) =
     (case harvestfiles_files t xs (ps, w) of
        (ps1, w1) \<Rightarrow>
          (case harvest_external_data t f (print (Text (''working on:  '' @ f)) w1) of
             (Inr v, w2) \<Rightarrow> harvestfiles_files t ys (ps1, w2)
           | (Inl e, w2) \<Rightarrow> harvestfiles_files t ys (ps1 @ [f], w2)))"
  unfolding harvestfiles_files_append by (simp split: prod.splits)





subsection \<open>The example folders, walked\<close>

lemma demo_step_a:
  "demo_method ''r/s/a_tweets.csv''
     (print (Text (''working on:  '' @ ''r/s/a_tweets.csv'')) extract_world)
     = (Inr PyNone, extract_world_a)"
  unfolding demo_method_def extract_world_a_def
  by (rule externaltweets_run[where ls = "map CsvRecord demo_records"])
     (simp_all add: extract_world_def demo_read_a outpath_a)

lemma files_extract_world_a:
  "files extract_world_a ''r/s/b_tweets.csv'' = Some [CsvRecord [''tweetid''], CsvRecord [''1'']]"
  "files extract_world_a ''r/s/c_tweets.csv'' = Some [CsvRecord demo_header]"
  "readonly extract_world_a = {}"
  by (simp_all add: extract_world_a_def extract_files_after_def outpath_a extract_world_def)

lemma demo_step_b:
  "demo_method ''r/s/b_tweets.csv''
     (print (Text (''working on:  '' @ ''r/s/b_tweets.csv'')) extract_world_a)
     = (Inl (KeyError ''retweet_userid''),
        print (Text (''working on:  '' @ ''r/s/b_tweets.csv'')) extract_world_a)"
  unfolding demo_method_def
  by (rule externaltweets_fail[where ls = "[CsvRecord [''tweetid''], CsvRecord [''1'']]"])
     (simp_all add: files_extract_world_a demo_read_b)

lemma demo_step_c:
  "demo_method ''r/s/c_tweets.csv''
     (print (Text (''working on:  '' @ ''r/s/c_tweets.csv'')) extract_world_b)
     = (Inr PyNone, extract_world_c)"
  unfolding demo_method_def extract_world_c_def
  by (rule externaltweets_run[where ls = "[CsvRecord demo_header]"])
     (simp_all add: extract_world_b_def files_extract_world_a demo_read_c outpath_c)

lemma demo_walk:
  "getfiles_files demo_method [''r/s/a_tweets.csv'', ''r/s/b_tweets.csv'', ''r/s/c_tweets.csv'']
     ([], extract_world) = ([''r/s/b_tweets.csv''], extract_world_c)"
  unfolding getfiles_files.simps demo_step_a prod.case sum.case demo_step_b
    extract_world_b_def[symmetric] demo_step_c append_Nil ..

lemma files_extract_world_c:
  "files extract_world_c ''r/s/c_tweets.csv_retweets'' = Some []"
  using extract_files_after_files(1)[of sorted_list_of_set "''r/s/c_tweets.csv''" no_ids]
  by (simp add: extract_world_c_def outpath_c no_ids_def)

lemma demo_scandir_root:
  "scandir_paths ''r'' (\<lambda>ent p. snd ent) extract_world = Inr [''r/s'']"
  by (simp add: scandir_paths_def extract_world_def path_join_def)

lemma demo_scandir_sub:
  "scandir_paths ''r/s'' tweets_csv extract_world
     = Inr [''r/s/a_tweets.csv'', ''r/s/b_tweets.csv'', ''r/s/c_tweets.csv'']"
  by (simp add: scandir_paths_def extract_world_def path_join_def tweets_csv_def
        DirEntry_str_def str_find_def splitext_ext_def)



lemma demo_hydrate_step_a:
  "harvest_external_data demo_twarc ''r/s/a.csv_retweets''
     (print (Text (''working on:  '' @ ''r/s/a.csv_retweets'')) hydrate_world)
     = (Inr PyNone, hydrate_world_a)"
  unfolding hydrate_world_a_def
  by (rule harvest_seven_of_ten[where ls = ten_ids])
     (simp_all add: demo_hydrate_ten, simp_all add: demo_twarc_def hydrate_world_def ten_ids_def
        seven_tweets_def)

lemma files_hydrate_world_a:
  "files hydrate_world_a ''r/s/b.csv_retweets'' = Some []"
  "files hydrate_world_a ''r/s/c.csv_replies'' = Some [Text ''8'']"
  "readonly hydrate_world_a = {}"
  by (simp_all add: hydrate_world_a_def harvest_files_after_def hydrate_world_def)

lemma demo_hydrate_step_b:
  "harvest_external_data demo_twarc ''r/s/b.csv_retweets''
     (print (Text (''working on:  '' @ ''r/s/b.csv_retweets'')) hydrate_world_a)
     = (Inl ZeroDivisionError, hydrate_world_b)"
  unfolding hydrate_world_b_def
  by (rule harvest_empty) (simp_all add: files_hydrate_world_a, simp_all add: demo_twarc_def)

lemma files_hydrate_world_b:
  "files hydrate_world_b ''r/s/c.csv_replies'' = Some [Text ''8'']"
  "readonly hydrate_world_b = {}"
  by (simp_all add: hydrate_world_b_def harvest_files_after_def files_hydrate_world_a)

lemma demo_hydrate_step_c:
  "harvest_external_data demo_twarc ''r/s/c.csv_replies''
     (print (Text (''working on:  '' @ ''r/s/c.csv_replies'')) hydrate_world_b)
     = (Inr PyNone, hydrate_world_c)"
  unfolding hydrate_world_c_def
  by (rule harvest_one_of_one[where ls = "[Text ''8'']"])
     (simp_all add: files_hydrate_world_b, simp_all add: demo_twarc_def)

lemma demo_hydrate_walk:
  "harvestfiles_files demo_twarc
     [''r/s/a.csv_retweets'', ''r/s/b.csv_retweets'', ''r/s/c.csv_replies'']
     ([], hydrate_world) = ([''r/s/b.csv_retweets''], hydrate_world_c)"
  unfolding harvestfiles_files.simps demo_hydrate_step_a prod.case sum.case demo_hydrate_step_b
    demo_hydrate_step_c append_Nil ..

lemma demo_hydrate_scandir_root:
  "scandir_paths ''r'' (\<lambda>ent p. snd ent) hydrate_world = Inr [''r/s'']"
  by (simp add: scandir_paths_def hydrate_world_def path_join_def)

lemma demo_hydrate_scandir_sub:
  "scandir_paths ''r/s'' retweets_or_replies hydrate_world
     = Inr [''r/s/a.csv_retweets'', ''r/s/b.csv_retweets'', ''r/s/c.csv_replies'']"
  by (simp add: scandir_paths_def hydrate_world_def path_join_def retweets_or_replies_def
        splitext_ext_def)



subsection \<open>The walk over the subfolders\<close>

lemma dirs_fwrite [simp]: "dirs (fwrite p ls w) = dirs w"
  by (simp add: fwrite_def)

lemma dirs_open_w: "open_w p w = Inr w1 \<Longrightarrow> dirs w1 = dirs w"
  by (auto simp: open_w_def split: if_splits)

lemma dirs_write_ids: "write_ids order p S w = Inr w1 \<Longrightarrow> dirs w1 = dirs w"
  by (auto simp: write_ids_def dest: dirs_open_w split: sum.splits)

lemma dirs_externaltweets:
  "dirs (snd (externaltweets tokenize order path o1 o2 o3 w)) = dirs w"
proof -
  define rt where "rt = (case o1 of None \<Rightarrow> outpath path ''_retweets'' | Some p \<Rightarrow> p)"
  define rp where "rp = (case o2 of None \<Rightarrow> outpath path ''_replies'' | Some p \<Rightarrow> p)"
  define qt where "qt = (case o3 of None \<Rightarrow> outpath path ''_quotes'' | Some p \<Rightarrow> p)"
  have ex: "externaltweets tokenize order path o1 o2 o3 w =
     (case open_r path w of
        Inl e \<Rightarrow> (Inl e, w)
      | Inr ls \<Rightarrow>
          (case read_ids (tokenize ls) of
             Inl e \<Rightarrow> (Inl e, w)
           | Inr s \<Rightarrow>
               (case write_ids order rt (retweets s) w of
                  Inl e \<Rightarrow> (Inl e, w)
                | Inr w1 \<Rightarrow>
                    (case write_ids order rp (replies s) w1 of
                       Inl e \<Rightarrow> (Inl e, w1)
                     | Inr w2 \<Rightarrow>
                         (case write_ids order qt (quotes s) w2 of
                            Inl e \<Rightarrow> (Inl e, w2)
                          | Inr w3 \<Rightarrow>
                              (Inr PyNone,
                               print (Result (snd (path_split path)) (card (retweets s))
                                        (card (replies s)) (card (quotes s))) w3))))))"
    unfolding externaltweets_def Let_def rt_def rp_def qt_def outpath_def by (rule refl)
  show ?thesis
  proof (cases "open_r path w")
    case (Inl e)
    then show ?thesis by (simp add: ex)
  next
    case ls: (Inr ls)
    show ?thesis
    proof (cases "read_ids (tokenize ls)")
      case (Inl e)
      then show ?thesis by (simp add: ex ls)
    next
      case s: (Inr s)
      show ?thesis
      proof (cases "write_ids order rt (retweets s) w")
        case (Inl e)
        then show ?thesis by (simp add: ex ls s)
      next
        case w1: (Inr w1)
        have d1: "dirs w1 = dirs w" by (rule dirs_write_ids[OF w1])
        show ?thesis
        proof (cases "write_ids order rp (replies s) w1")
          case (Inl e)
          then show ?thesis by (simp add: ex ls s w1 d1)
        next
          case w2: (Inr w2)
          have d2: "dirs w2 = dirs w" using dirs_write_ids[OF w2] d1 by simp
          show ?thesis
          proof (cases "write_ids order qt (quotes s) w2")
            case (Inl e)
            then show ?thesis by (simp add: ex ls s w1 w2 d2)
          next
            case w3: (Inr w3)
            have d3: "dirs w3 = dirs w" using dirs_write_ids[OF w3] d2 by simp
            show ?thesis by (simp add: ex ls s w1 w2 w3 d3)
          qed
        qed
      qed
    qed
  qed
qed

lemma dirs_harvest_external_data:
  "dirs (snd (harvest_external_data t path w)) = dirs w"
proof -
  define w1 where "w1 = print (Text (''working on '' @ path)) w"
  define w3 where "w3 = (\<lambda>ids w2. fwrite (path @ ''.jsonl'') (map Text (fst (hydrate t ids))) w2)"
  have ex: "harvest_external_data t path w =
     (case connect t of
        Some e \<Rightarrow> (Inl e, w)
      | None \<Rightarrow>
          (case open_r path w of
             Inl e \<Rightarrow> (Inl e, w)
           | Inr ls \<Rightarrow>
               (case open_w (path @ ''.jsonl'') w1 of
                  Inl e \<Rightarrow> (Inl e, w1)
                | Inr w2 \<Rightarrow>
                    (case open_r path w2 of
                       Inl e \<Rightarrow> (Inl e, w2)
                     | Inr ids \<Rightarrow>
                         (case snd (hydrate t ids) of
                            Some e \<Rightarrow> (Inl e, w3 ids w2)
                          | None \<Rightarrow>
                              (case open_w (path @ ''.log'') (w3 ids w2) of
                                 Inl e \<Rightarrow> (Inl e, w3 ids w2)
                               | Inr w4 \<Rightarrow>
                                   (case recovered_percent (length (fst (hydrate t ids)))
                                           (length ls) of
                                      Inl e \<Rightarrow> (Inl e, w4)
                                    | Inr pct \<Rightarrow>
                                        (Inr PyNone,
                                         fwrite (path @ ''.log'')
                                           [Summary (length ls) (length (fst (hydrate t ids))) pct]
                                           w4))))))))"
    unfolding harvest_external_data_def Let_def w1_def w3_def by (rule refl)
  have d1: "dirs w1 = dirs w" by (simp add: w1_def)
  show ?thesis
  proof (cases "connect t")
    case (Some e)
    then show ?thesis by (simp add: ex)
  next
    case None
    show ?thesis
    proof (cases "open_r path w")
      case (Inl e)
      then show ?thesis by (simp add: ex None)
    next
      case ls: (Inr ls)
      show ?thesis
      proof (cases "open_w (path @ ''.jsonl'') w1")
        case (Inl e)
        then show ?thesis by (simp add: ex None ls d1)
      next
        case w2: (Inr w2)
        have d2: "dirs w2 = dirs w" using dirs_open_w[OF w2] d1 by simp
        show ?thesis
        proof (cases "open_r path w2")
          case (Inl e)
          then show ?thesis by (simp add: ex None ls w2 d2)
        next
          case ids: (Inr ids)
          have d3: "dirs (w3 ids w2) = dirs w" by (simp add: w3_def d2)
          show ?thesis
          proof (cases "snd (hydrate t ids)")
            case (Some e)
            then show ?thesis by (simp add: ex None ls w2 ids d3)
          next
            case end_ok: None
            show ?thesis
            proof (cases "open_w (path @ ''.log'') (w3 ids w2)")
              case (Inl e)
              then show ?thesis by (simp add: ex None ls w2 ids end_ok d3)
            next
              case w4: (Inr w4)
              have d4: "dirs w4 = dirs w" using dirs_open_w[OF w4] d3 by simp
              show ?thesis
                by (cases "recovered_percent (length (fst (hydrate t ids))) (length ls)")
                   (simp_all add: ex None ls w2 ids end_ok w4 d4)
            qed
          qed
        qed
      qed
    qed
  qed
qed

lemma scandir_paths_dirs:
  "dirs w' = dirs w \<Longrightarrow> scandir_paths folder keep w' = scandir_paths folder keep w"
  by (simp add: scandir_paths_def)

lemma listed_dirs: "dirs w' = dirs w \<Longrightarrow> listed keep w' = listed keep w"
  by (rule ext) (simp add: listed_def scandir_paths_def)

lemma scandir_paths_listed:
  "dirs w folder \<noteq> None \<Longrightarrow> scandir_paths folder keep w = Inr (listed keep w folder)"
  by (auto simp: listed_def scandir_paths_def)

lemma dirs_getfiles_files:
  assumes "\<And>f w. dirs (snd (m f w)) = dirs w"
  shows "dirs (snd (getfiles_files m fs (ps, w))) = dirs w"
proof (induction fs arbitrary: ps w)
  case Nil
  then show ?case by simp
next
  case (Cons f fs)
  obtain r w1 where r: "m f (print (Text (''working on:  '' @ f)) w) = (r, w1)"
    by (cases "m f (print (Text (''working on:  '' @ f)) w)")
  have "dirs w1 = dirs w" using assms[of f "print (Text (''working on:  '' @ f)) w"] r by simp
  then show ?case
    using Cons.IH r by (cases r) simp_all
qed

lemma dirs_harvestfiles_files:
  "dirs (snd (harvestfiles_files t fs (ps, w))) = dirs w"
proof (induction fs arbitrary: ps w)
  case Nil
  then show ?case by simp
next
  case (Cons f fs)
  obtain r w1 where r: "harvest_external_data t f (print (Text (''working on:  '' @ f)) w) = (r, w1)"
    by (cases "harvest_external_data t f (print (Text (''working on:  '' @ f)) w)")
  have "dirs w1 = dirs w"
    using dirs_harvest_external_data[of t f "print (Text (''working on:  '' @ f)) w"] r by simp
  then show ?case
    using Cons.IH r by (cases r) simp_all
qed

lemma getfiles_subfolders_flat:
  assumes keeps: "\<And>f w. dirs (snd (m f w)) = dirs w"
    and "\<forall>sub \<in> set subs. dirs w sub \<noteq> None"
  shows "getfiles_subfolders m subs (ps, w)
           = (Inr (fst (getfiles_files m (matching_files tweets_csv w subs) (ps, w))),
              snd (getfiles_files m (matching_files tweets_csv w subs) (ps, w)))"
  using assms(2)
proof (induction subs arbitrary: ps w)
  case Nil
  then show ?case by (simp add: matching_files_def)
next
  case (Cons sub subs)
  obtain ps1 w1 where st: "getfiles_files m (listed tweets_csv w sub) (ps, w) = (ps1, w1)"
    by (cases "getfiles_files m (listed tweets_csv w sub) (ps, w)")
  have d: "dirs w1 = dirs w"
    using dirs_getfiles_files[of m "listed tweets_csv w sub" ps w, OF keeps] st by simp
  have l: "scandir_paths sub tweets_csv w = Inr (listed tweets_csv w sub)"
    using Cons.prems by (simp add: scandir_paths_listed)
  have "\<forall>sub \<in> set subs. dirs w1 sub \<noteq> None" using Cons.prems d by simp
  from Cons.IH[OF this, of ps1]
  show ?case
    by (simp add: l st matching_files_def listed_dirs[OF d] getfiles_files_append)
qed

lemma harvestfiles_subfolders_flat:
  assumes "\<forall>sub \<in> set subs. dirs w sub \<noteq> None"
  shows "harvestfiles_subfolders t subs (ps, w)
           = (Inr (fst (harvestfiles_files t (matching_files retweets_or_replies w subs) (ps, w))),
              snd (harvestfiles_files t (matching_files retweets_or_replies w subs) (ps, w)))"
  using assms
proof (induction subs arbitrary: ps w)
  case Nil
  then show ?case by (simp add: matching_files_def)
next
  case (Cons sub subs)
  obtain ps1 w1 where st: "harvestfiles_files t (listed retweets_or_replies w sub) (ps, w) = (ps1, w1)"
    by (cases "harvestfiles_files t (listed retweets_or_replies w sub) (ps, w)")
  have d: "dirs w1 = dirs w"
    using dirs_harvestfiles_files[of t "listed retweets_or_replies w sub" ps w] st by simp
  have l: "scandir_paths sub retweets_or_replies w = Inr (listed retweets_or_replies w sub)"
    using Cons.prems by (simp add: scandir_paths_listed)
  have "\<forall>sub \<in> set subs. dirs w1 sub \<noteq> None" using Cons.prems d by simp
  from Cons.IH[OF this, of ps1]
  show ?case
    by (simp add: l st matching_files_def listed_dirs[OF d] harvestfiles_files_append)
qed

lemma getfiles_flat:
  assumes "\<And>f w. dirs (snd (m f w)) = dirs w"
    and "scandir_paths d (\<lambda>ent p. snd ent) w = Inr subs"
    and "\<forall>sub \<in> set subs. dirs w sub \<noteq> None"
  shows "getfiles m d w
           = (Inr PyNone,
              print_problems (fst (getfiles_files m (matching_files tweets_csv w subs) ([], w)))
                (snd (getfiles_files m (matching_files tweets_csv w subs) ([], w))))"
  unfolding getfiles_def assms(2) sum.case getfiles_subfolders_flat[of m subs w, OF assms(1) assms(3)]
  by simp

lemma harvestfiles_flat:
  assumes "scandir_paths d (\<lambda>ent p. snd ent) w = Inr subs"
    and "\<forall>sub \<in> set subs. dirs w sub \<noteq> None"
  shows "harvestfiles t d w
           = (Inr PyNone,
              print_problems
                (fst (harvestfiles_files t (matching_files retweets_or_replies w subs) ([], w)))
                (snd (harvestfiles_files t (matching_files retweets_or_replies w subs) ([], w))))"
  unfolding harvestfiles_def assms(1) sum.case harvestfiles_subfolders_flat[OF assms(2)]
  by simp

subsection \<open>A subfolder that cannot be listed\<close>

lemma outpath_s1_a:
  "outpath ''r/s1/a_tweets.csv'' ''_retweets'' = ''r/s1/a_tweets.csv_retweets''"
  "outpath ''r/s1/a_tweets.csv'' ''_replies'' = ''r/s1/a_tweets.csv_replies''"
  "outpath ''r/s1/a_tweets.csv'' ''_quotes'' = ''r/s1/a_tweets.csv_quotes''"
  "snd (path_split ''r/s1/a_tweets.csv'') = ''a_tweets.csv''"
  by (simp_all add: outpath_def path_split_def path_join_def)

lemma blocked_step_a:
  "demo_method ''r/s1/a_tweets.csv''
     (print (Text (''working on:  '' @ ''r/s1/a_tweets.csv'')) blocked_world)
     = (Inr PyNone, blocked_world_a)"
  unfolding demo_method_def blocked_world_a_def
  by (rule externaltweets_run[where ls = "[CsvRecord demo_header]"])
     (simp_all add: blocked_world_def demo_read_c outpath_s1_a)

lemma files_blocked_world_a:
  "files blocked_world_a ''r/s1/b_tweets.csv'' = Some [CsvRecord [''tweetid''], CsvRecord [''1'']]"
  "files blocked_world_a ''r/s3/c_tweets.csv_retweets'' = None"
  "dirs blocked_world_a = dirs blocked_world"
  "stdout blocked_world_a = [Text ''working on:  r/s1/a_tweets.csv'', Result ''a_tweets.csv'' 0 0 0]"
  by (simp_all add: blocked_world_a_def extract_files_after_def outpath_s1_a blocked_world_def
        print_def no_ids_def)

lemma blocked_step_b:
  "demo_method ''r/s1/b_tweets.csv''
     (print (Text (''working on:  '' @ ''r/s1/b_tweets.csv'')) blocked_world_a)
     = (Inl (KeyError ''retweet_userid''),
        print (Text (''working on:  '' @ ''r/s1/b_tweets.csv'')) blocked_world_a)"
  unfolding demo_method_def
  by (rule externaltweets_fail[where ls = "[CsvRecord [''tweetid''], CsvRecord [''1'']]"])
     (simp_all add: files_blocked_world_a demo_read_b)

lemma blocked_walk_s1:
  "getfiles_files demo_method [''r/s1/a_tweets.csv'', ''r/s1/b_tweets.csv''] ([], blocked_world)
     = ([''r/s1/b_tweets.csv''], blocked_world_b)"
  unfolding getfiles_files.simps blocked_step_a prod.case sum.case blocked_step_b
    blocked_world_b_def[symmetric] append_Nil ..

lemma blocked_scandir_root:
  "scandir_paths ''r'' (\<lambda>ent p. snd ent) blocked_world = Inr [''r/s1'', ''r/s2'', ''r/s3'']"
  by (simp add: scandir_paths_def blocked_world_def path_join_def)

lemma blocked_scandir_s1:
  "scandir_paths ''r/s1'' tweets_csv blocked_world
     = Inr [''r/s1/a_tweets.csv'', ''r/s1/b_tweets.csv'']"
  by (simp add: scandir_paths_def blocked_world_def path_join_def tweets_csv_def
        DirEntry_str_def str_find_def splitext_ext_def)

lemma blocked_scandir_s3:
  "scandir_paths ''r/s3'' tweets_csv blocked_world = Inr [''r/s3/c_tweets.csv'']"
  by (simp add: scandir_paths_def blocked_world_def path_join_def tweets_csv_def
        DirEntry_str_def str_find_def splitext_ext_def)

lemma blocked_scandir_s2:
  "scandir_paths ''r/s2'' tweets_csv blocked_world_b = Inl (FileNotFoundError ''r/s2'')"
  by (simp add: scandir_paths_def blocked_world_b_def files_blocked_world_a)
     (simp add: blocked_world_def)

lemma blocked_getfiles:
  "getfiles demo_method ''r'' blocked_world = (Inl (FileNotFoundError ''r/s2''), blocked_world_b)"
  unfolding getfiles_def blocked_scandir_root sum.case getfiles_subfolders.simps
    blocked_scandir_s1 blocked_walk_s1 blocked_scandir_s2 prod.case ..

lemma demo_method_eq:
  "(\<lambda>f. externaltweets demo_tokenize sorted_list_of_set f None None None) = demo_method"
  by (rule ext) (simp add: demo_method_def)

lemma demo_matching_files:
  "matching_files tweets_csv extract_world [''r/s'']
     = [''r/s/a_tweets.csv'', ''r/s/b_tweets.csv'', ''r/s/c_tweets.csv'']"
  by (simp add: matching_files_def listed_def demo_scandir_sub)

lemma demo_hydrate_matching_files:
  "matching_files retweets_or_replies hydrate_world [''r/s'']
     = [''r/s/a.csv_retweets'', ''r/s/b.csv_retweets'', ''r/s/c.csv_replies'']"
  by (simp add: matching_files_def listed_def demo_hydrate_scandir_sub)

text \<open>
  C4, as the code has it. When the root folder and each of its subfolders can be
  listed, either walker returns, having run the loop over the matching files of all
  the subfolders, in order, as one sequence, with one list of failures carried from
  subfolder to subfolder and printed at the end. Over any sequence of files the list
  of failures after the loop is exactly the files whose call raised, in order: a file
  whose call returned is not in it. Each call is made on the machine that all the
  files before it left behind, whether they failed or not; and wherever a file
  \<open>f\<close> stands in the sequence, the loop goes on with the files after it, with \<open>f\<close>
  appended to the list when its call raised and the list unchanged when it returned.
  (An error raised while a subfolder is listed is outside the \<open>try\<close>: it is not
  caught.)
\<close>

theorem walkers_record_failures_and_continue:
  "(scandir_paths d (\<lambda>ent p. snd ent) w = Inr subs \<and> (\<forall>sub \<in> set subs. dirs w sub \<noteq> None) \<longrightarrow>
      getfiles (\<lambda>f. externaltweets tokenize order f None None None) d w
        = (Inr PyNone,
           print_problems
             (fst (getfiles_files (\<lambda>f. externaltweets tokenize order f None None None)
                     (matching_files tweets_csv w subs) ([], w)))
             (snd (getfiles_files (\<lambda>f. externaltweets tokenize order f None None None)
                     (matching_files tweets_csv w subs) ([], w)))))
   \<and> (scandir_paths d (\<lambda>ent p. snd ent) w = Inr subs \<and> (\<forall>sub \<in> set subs. dirs w sub \<noteq> None) \<longrightarrow>
      harvestfiles t d w
        = (Inr PyNone,
           print_problems
             (fst (harvestfiles_files t (matching_files retweets_or_replies w subs) ([], w)))
             (snd (harvestfiles_files t (matching_files retweets_or_replies w subs) ([], w)))))
   \<and> fst (getfiles_files m fs ([], w)) =
       map ((!) fs)
         (filter (\<lambda>i. isl (fst (m (fs ! i) (print (Text (''working on:  '' @ fs ! i))
                                   (snd (getfiles_files m (take i fs) ([], w)))))))
            [0..<length fs])
   \<and> getfiles_files m (xs @ f # ys) (ps, w) =
       (case getfiles_files m xs (ps, w) of
          (ps1, w1) \<Rightarrow>
            (case m f (print (Text (''working on:  '' @ f)) w1) of
               (Inr v, w2) \<Rightarrow> getfiles_files m ys (ps1, w2)
             | (Inl e, w2) \<Rightarrow>
                 getfiles_files m ys (ps1 @ [f], print (Text (''problem with '' @ f)) w2)))
   \<and> fst (harvestfiles_files t fs ([], w)) =
       map ((!) fs)
         (filter (\<lambda>i. isl (fst (harvest_external_data t (fs ! i)
                                   (print (Text (''working on:  '' @ fs ! i))
                                      (snd (harvestfiles_files t (take i fs) ([], w)))))))
            [0..<length fs])
   \<and> harvestfiles_files t (xs @ f # ys) (ps, w) =
       (case harvestfiles_files t xs (ps, w) of
          (ps1, w1) \<Rightarrow>
            (case harvest_external_data t f (print (Text (''working on:  '' @ f)) w1) of
               (Inr v, w2) \<Rightarrow> harvestfiles_files t ys (ps1, w2)
             | (Inl e, w2) \<Rightarrow> harvestfiles_files t ys (ps1 @ [f], w2)))"
proof (intro conjI impI)
  assume a: "scandir_paths d (\<lambda>ent p. snd ent) w = Inr subs \<and> (\<forall>sub \<in> set subs. dirs w sub \<noteq> None)"
  have keeps: "dirs (snd (externaltweets tokenize order f None None None w')) = dirs w'" for f w'
    by (rule dirs_externaltweets)
  from a show "getfiles (\<lambda>f. externaltweets tokenize order f None None None) d w
        = (Inr PyNone,
           print_problems
             (fst (getfiles_files (\<lambda>f. externaltweets tokenize order f None None None)
                     (matching_files tweets_csv w subs) ([], w)))
             (snd (getfiles_files (\<lambda>f. externaltweets tokenize order f None None None)
                     (matching_files tweets_csv w subs) ([], w))))"
    by (intro getfiles_flat keeps) simp_all
next
  assume a: "scandir_paths d (\<lambda>ent p. snd ent) w = Inr subs \<and> (\<forall>sub \<in> set subs. dirs w sub \<noteq> None)"
  then show "harvestfiles t d w
        = (Inr PyNone,
           print_problems
             (fst (harvestfiles_files t (matching_files retweets_or_replies w subs) ([], w)))
             (snd (harvestfiles_files t (matching_files retweets_or_replies w subs) ([], w))))"
    by (intro harvestfiles_flat) simp_all
next
  show "fst (getfiles_files m fs ([], w)) =
       map ((!) fs)
         (filter (\<lambda>i. isl (fst (m (fs ! i) (print (Text (''working on:  '' @ fs ! i))
                                   (snd (getfiles_files m (take i fs) ([], w)))))))
            [0..<length fs])"
    using getfiles_files_problems[of m fs "[]" w] by (simp only: append_Nil)
next
  show "getfiles_files m (xs @ f # ys) (ps, w) =
       (case getfiles_files m xs (ps, w) of
          (ps1, w1) \<Rightarrow>
            (case m f (print (Text (''working on:  '' @ f)) w1) of
               (Inr v, w2) \<Rightarrow> getfiles_files m ys (ps1, w2)
             | (Inl e, w2) \<Rightarrow>
                 getfiles_files m ys (ps1 @ [f], print (Text (''problem with '' @ f)) w2)))"
    by (rule getfiles_files_continue)
next
  show "fst (harvestfiles_files t fs ([], w)) =
       map ((!) fs)
         (filter (\<lambda>i. isl (fst (harvest_external_data t (fs ! i)
                                   (print (Text (''working on:  '' @ fs ! i))
                                      (snd (harvestfiles_files t (take i fs) ([], w)))))))
            [0..<length fs])"
    using harvestfiles_files_problems[of t fs "[]" w] by (simp only: append_Nil)
next
  show "harvestfiles_files t (xs @ f # ys) (ps, w) =
       (case harvestfiles_files t xs (ps, w) of
          (ps1, w1) \<Rightarrow>
            (case harvest_external_data t f (print (Text (''working on:  '' @ f)) w1) of
               (Inr v, w2) \<Rightarrow> harvestfiles_files t ys (ps1, w2)
             | (Inl e, w2) \<Rightarrow> harvestfiles_files t ys (ps1 @ [f], w2)))"
    by (rule harvestfiles_files_continue)
qed

theorem walkers_record_failures_and_continue_witness:
  "scandir_paths ''r'' (\<lambda>ent p. snd ent) extract_world = Inr [''r/s'']
   \<and> dirs extract_world ''r/s'' \<noteq> None
   \<and> matching_files tweets_csv extract_world [''r/s'']
       = [''r/s/a_tweets.csv'', ''r/s/b_tweets.csv'', ''r/s/c_tweets.csv'']
   \<and> getfiles demo_method ''r'' extract_world
       = (Inr PyNone, print_problems [''r/s/b_tweets.csv''] extract_world_c)
   \<and> files extract_world_c ''r/s/c_tweets.csv_retweets'' = Some []
   \<and> scandir_paths ''r'' (\<lambda>ent p. snd ent) hydrate_world = Inr [''r/s'']
   \<and> dirs hydrate_world ''r/s'' \<noteq> None
   \<and> matching_files retweets_or_replies hydrate_world [''r/s'']
       = [''r/s/a.csv_retweets'', ''r/s/b.csv_retweets'', ''r/s/c.csv_replies'']
   \<and> harvestfiles demo_twarc ''r'' hydrate_world
       = (Inr PyNone, print_problems [''r/s/b.csv_retweets''] hydrate_world_c)
   \<and> files hydrate_world_c (''r/s/c.csv_replies'' @ ''.log'') = Some [Summary 1 1 (Float 100)]"
proof -
  have l1: "\<forall>sub \<in> set [''r/s'']. dirs extract_world sub \<noteq> None"
    by (simp add: extract_world_def)
  have l2: "\<forall>sub \<in> set [''r/s'']. dirs hydrate_world sub \<noteq> None"
    by (simp add: hydrate_world_def)
  note t1 = walkers_record_failures_and_continue[where d = "''r''" and w = extract_world
      and subs = "[''r/s'']" and tokenize = demo_tokenize and order = sorted_list_of_set]
  note t2 = walkers_record_failures_and_continue[where d = "''r''" and w = hydrate_world
      and subs = "[''r/s'']" and t = demo_twarc]
  from t1 demo_scandir_root l1
  have "getfiles (\<lambda>f. externaltweets demo_tokenize sorted_list_of_set f None None None) ''r''
          extract_world
        = (Inr PyNone,
           print_problems
             (fst (getfiles_files (\<lambda>f. externaltweets demo_tokenize sorted_list_of_set f None None None)
                     (matching_files tweets_csv extract_world [''r/s'']) ([], extract_world)))
             (snd (getfiles_files (\<lambda>f. externaltweets demo_tokenize sorted_list_of_set f None None None)
                     (matching_files tweets_csv extract_world [''r/s'']) ([], extract_world))))"
    by blast
  then have g: "getfiles demo_method ''r'' extract_world
       = (Inr PyNone, print_problems [''r/s/b_tweets.csv''] extract_world_c)"
    unfolding demo_method_eq demo_matching_files demo_walk fst_conv snd_conv .
  from t2 demo_hydrate_scandir_root l2
  have "harvestfiles demo_twarc ''r'' hydrate_world
        = (Inr PyNone,
           print_problems
             (fst (harvestfiles_files demo_twarc
                     (matching_files retweets_or_replies hydrate_world [''r/s'']) ([], hydrate_world)))
             (snd (harvestfiles_files demo_twarc
                     (matching_files retweets_or_replies hydrate_world [''r/s'']) ([], hydrate_world))))"
    by blast
  then have h: "harvestfiles demo_twarc ''r'' hydrate_world
       = (Inr PyNone, print_problems [''r/s/b.csv_retweets''] hydrate_world_c)"
    unfolding demo_hydrate_matching_files demo_hydrate_walk fst_conv snd_conv .
  have c: "files hydrate_world_c (''r/s/c.csv_replies'' @ ''.log'') = Some [Summary 1 1 (Float 100)]"
    unfolding hydrate_world_c_def by (rule log_after)
  from l1 l2 have "dirs extract_world ''r/s'' \<noteq> None" "dirs hydrate_world ''r/s'' \<noteq> None"
    by simp_all
  with demo_scandir_root demo_matching_files g files_extract_world_c demo_hydrate_scandir_root
    demo_hydrate_matching_files h c
  show ?thesis by blast
qed

theorem listing_error_ends_walk_counterexample:
  "scandir_paths ''r/s1'' tweets_csv blocked_world
     = Inr [''r/s1/a_tweets.csv'', ''r/s1/b_tweets.csv'']
   \<and> scandir_paths ''r/s3'' tweets_csv blocked_world = Inr [''r/s3/c_tweets.csv'']
   \<and> fst (getfiles demo_method ''r'' blocked_world) = Inl (FileNotFoundError ''r/s2'')
   \<and> stdout (snd (getfiles demo_method ''r'' blocked_world))
       = [Text ''working on:  r/s1/a_tweets.csv'', Result ''a_tweets.csv'' 0 0 0,
          Text ''working on:  r/s1/b_tweets.csv'', Text ''problem with r/s1/b_tweets.csv'']
   \<and> files (snd (getfiles demo_method ''r'' blocked_world)) ''r/s3/c_tweets.csv_retweets'' = None"
  by (simp add: blocked_scandir_s1 blocked_scandir_s3 blocked_getfiles)
     (simp add: blocked_world_b_def files_blocked_world_a print_def)




end
